theory Spec2Isabelle
  imports Complex_Main
begin

section \<open>Verifier service: judgments of the two verifiers\<close>

text \<open>
  The verifier API (\<^verbatim>\<open>verifier/api\<close>) judges a submitted solution with two verifiers:
  \<^verbatim>\<open>SympySolver\<close> (the spec's Analytic verifier) and \<^verbatim>\<open>GPTSolver\<close> (the spec's
  Heuristic verifier). Confidences are Python floats; they are modelled as real numbers,
  so the thresholds and products below are exact.
\<close>

datatype problem_type = DERIVATIVE | INTEGRAL | LIMIT | DIFFERENTIAL_EQ | SERIES

text \<open>
  \<^verbatim>\<open>@dataclass VerificationResult\<close> and \<^verbatim>\<open>@dataclass ChallengeEvaluation\<close> with fields
  of the declared types. \<^verbatim>\<open>SympySolver.verify\<close> fills its result with Booleans, floats
  and strings of its own making.
\<close>

record verification_result =
  is_correct :: bool
  confidence :: real
  expected_solution :: "string option"
  reason :: "string option"

record challenge_evaluation =
  is_valid :: bool
  assessment :: string

subsection \<open>SympySolver.verify\<close>

text \<open>
  The symbolic library is outside the program: its four uses in \<^verbatim>\<open>SympySolver.verify\<close>
  are parameters. \<^verbatim>\<open>_parse_problem\<close> and \<^verbatim>\<open>_parse_expression\<close> return an expression,
  \<^verbatim>\<open>None\<close>, or let an exception of \<^verbatim>\<open>sympify\<close> escape (\<open>Inl\<close> its message);
  \<^verbatim>\<open>_compute_solution\<close> and \<^verbatim>\<open>_compare_expressions\<close> catch every exception themselves.
\<close>

record 'e sympy_lib =
  parse_problem :: "string \<Rightarrow> string + 'e option"
  compute_solution :: "'e \<Rightarrow> problem_type \<Rightarrow> string \<Rightarrow> 'e option"
  parse_expression :: "string \<Rightarrow> string + 'e option"
  compare_expressions :: "'e \<Rightarrow> 'e \<Rightarrow> problem_type \<Rightarrow> bool"
  str_expr :: "'e \<Rightarrow> string"

definition verification_error :: "string \<Rightarrow> verification_result" where
  "verification_error e =
     \<lparr>is_correct = False, confidence = 0.1, expected_solution = None,
      reason = Some (''Verification error: '' @ e)\<rparr>"

definition SympySolver_verify ::
  "'e sympy_lib \<Rightarrow> string \<Rightarrow> string \<Rightarrow> problem_type \<Rightarrow> verification_result" where
  "SympySolver_verify lib problem solution ptype =
     (case parse_problem lib problem of
        Inl e \<Rightarrow> verification_error e
      | Inr None \<Rightarrow>
          \<lparr>is_correct = False, confidence = 0.0, expected_solution = None,
           reason = Some ''Could not parse problem''\<rparr>
      | Inr (Some expr) \<Rightarrow>
          (case compute_solution lib expr ptype problem of
             None \<Rightarrow>
               \<lparr>is_correct = False, confidence = 0.3, expected_solution = None,
                reason = Some ''Could not compute expected solution''\<rparr>
           | Some expected \<Rightarrow>
               (case parse_expression lib solution of
                  Inl e \<Rightarrow> verification_error e
                | Inr None \<Rightarrow>
                    \<lparr>is_correct = False, confidence = 0.5,
                     expected_solution = Some (str_expr lib expected),
                     reason = Some ''Could not parse submitted solution''\<rparr>
                | Inr (Some submitted) \<Rightarrow>
                    (let ok = compare_expressions lib submitted expected ptype in
                     \<lparr>is_correct = ok,
                      confidence = (if ok then 0.95 else 0.9),
                      expected_solution = Some (str_expr lib expected),
                      reason = Some (if ok then ''Solutions match'' else ''Solutions differ'')\<rparr>))))"

subsection \<open>GPTSolver.verify and GPTSolver.evaluate_challenge\<close>

text \<open>
  \<^verbatim>\<open>gpt_solver.py\<close> has dataclasses of its own, and a dataclass does not check the
  types of its fields: \<^verbatim>\<open>GPTSolver.verify\<close> stores what \<^verbatim>\<open>json.loads\<close> found under the
  keys of the reply, whatever it is. A value of the reply is \<^verbatim>\<open>None\<close> (JSON null), a
  Boolean, a number with the text that \<^verbatim>\<open>str\<close> gives for it, a string, or an array or
  object, of which the model keeps whether it is non-empty and the text that \<^verbatim>\<open>str\<close>
  gives for it. Numbers are finite: the literals \<^verbatim>\<open>NaN\<close> and \<^verbatim>\<open>Infinity\<close>, which
  \<^verbatim>\<open>json.loads\<close> accepts as well, are left out.
\<close>

datatype pyval = PNone | PBool bool | PNum real string | PStr string | PJson bool string

text \<open>\<^verbatim>\<open>VerificationResult\<close> and \<^verbatim>\<open>ChallengeEvaluation\<close> as \<^verbatim>\<open>GPTSolver\<close> fills them.\<close>

record gpt_verification_result =
  g_is_correct :: pyval
  g_confidence :: real
  g_expected_solution :: pyval
  g_reason :: pyval

record gpt_challenge_evaluation =
  e_is_valid :: pyval
  e_assessment :: pyval

text \<open>
  A judgment whose fields have the declared types, as the object that holds it.
\<close>

definition opt_str :: "string option \<Rightarrow> pyval" where
  "opt_str a = (case a of None \<Rightarrow> PNone | Some s \<Rightarrow> PStr s)"

definition gpt_judgment :: "verification_result \<Rightarrow> gpt_verification_result" where
  "gpt_judgment r =
     \<lparr>g_is_correct = PBool (is_correct r), g_confidence = confidence r,
      g_expected_solution = opt_str (expected_solution r), g_reason = opt_str (reason r)\<rparr>"

definition gpt_evaluation :: "challenge_evaluation \<Rightarrow> gpt_challenge_evaluation" where
  "gpt_evaluation ev = \<lparr>e_is_valid = PBool (is_valid ev), e_assessment = PStr (assessment ev)\<rparr>"

text \<open>
  Python's truth value of an object, \<^verbatim>\<open>b == v\<close> for a Boolean \<^verbatim>\<open>b\<close> (a Boolean equals
  the numbers 0 and 1, and nothing that is not a number), the number that \<^verbatim>\<open>max\<close> and
  \<^verbatim>\<open>min\<close> compare (none for a value that is not a number: \<^verbatim>\<open>TypeError\<close>), and \<^verbatim>\<open>str\<close>.
\<close>

definition truthy :: "pyval \<Rightarrow> bool" where
  "truthy v =
     (case v of
        PNone \<Rightarrow> False | PBool b \<Rightarrow> b | PNum x t \<Rightarrow> x \<noteq> 0 | PStr s \<Rightarrow> s \<noteq> []
      | PJson nonempty t \<Rightarrow> nonempty)"

definition py_eq_bool :: "bool \<Rightarrow> pyval \<Rightarrow> bool" where
  "py_eq_bool b v =
     (case v of
        PBool c \<Rightarrow> b = c | PNum x t \<Rightarrow> x = (if b then 1 else 0) | _ \<Rightarrow> False)"

definition as_number :: "pyval \<Rightarrow> real option" where
  "as_number v =
     (case v of
        PNum x t \<Rightarrow> Some x | PBool b \<Rightarrow> Some (if b then 1 else 0) | _ \<Rightarrow> None)"

definition py_str :: "pyval \<Rightarrow> string" where
  "py_str v =
     (case v of
        PNone \<Rightarrow> ''None'' | PBool b \<Rightarrow> (if b then ''True'' else ''False'')
      | PNum x t \<Rightarrow> t | PStr s \<Rightarrow> s | PJson nonempty t \<Rightarrow> t)"

text \<open>
  What the language model answers is an input of the model. \<open>Unavailable\<close>: no client
  library or no API key. \<open>CallFailed\<close>: \<^verbatim>\<open>_call_gpt\<close> raised, or the reply parsed to
  something that is not a JSON object (any exception but \<^verbatim>\<open>JSONDecodeError\<close>, with its
  message). \<open>NonJson\<close>: the reply is text that \<^verbatim>\<open>json.loads\<close> rejects with
  \<^verbatim>\<open>JSONDecodeError\<close>. \<open>Json\<close>: the reply is a JSON object; a key that is absent is
  \<open>None\<close>, a key that is present holds any value.
\<close>

record gpt_json =
  j_is_correct :: "pyval option"
  j_confidence :: "pyval option"
  j_expected_solution :: "pyval option"
  j_reason :: "pyval option"

datatype gpt_reply = Unavailable | CallFailed string | NonJson string | Json gpt_json

definition lower_char :: "char \<Rightarrow> char" where
  "lower_char c =
     (let n = (of_char c :: nat) in if 65 \<le> n \<and> n \<le> 90 then char_of (n + 32) else c)"

definition lower :: "string \<Rightarrow> string" where
  "lower s = map lower_char s"

fun starts_with :: "string \<Rightarrow> string \<Rightarrow> bool" where
  "starts_with s [] = True"
| "starts_with [] (p # ps) = False"
| "starts_with (c # cs) (p # ps) = (c = p \<and> starts_with cs ps)"

text \<open>Python's \<^verbatim>\<open>sub in s\<close> on strings.\<close>

fun contains :: "string \<Rightarrow> string \<Rightarrow> bool" where
  "contains [] sub = (sub = [])"
| "contains (c # cs) sub = (starts_with (c # cs) sub \<or> contains cs sub)"

definition gpt_error :: "string \<Rightarrow> gpt_verification_result" where
  "gpt_error e =
     \<lparr>g_is_correct = PBool False, g_confidence = 0.0, g_expected_solution = PNone,
      g_reason = PStr (''GPT error: '' @ e)\<rparr>"

text \<open>
  \<^verbatim>\<open>GPTSolver.verify\<close>. With a JSON object, \<^verbatim>\<open>result.get\<close> passes the values of
  \<^verbatim>\<open>is_correct\<close>, \<^verbatim>\<open>expected_solution\<close> and \<^verbatim>\<open>reason\<close> through unchecked; only the
  confidence is computed, and \<^verbatim>\<open>max(0.0, ...)\<close> raises \<^verbatim>\<open>TypeError\<close> on a value that is
  not a number; the general handler then answers with the error judgment, for whose
  message the model writes the name of the exception.
\<close>

definition GPTSolver_verify :: "gpt_reply \<Rightarrow> gpt_verification_result" where
  "GPTSolver_verify reply =
     (case reply of
        Unavailable \<Rightarrow>
          \<lparr>g_is_correct = PBool False, g_confidence = 0.0, g_expected_solution = PNone,
           g_reason = PStr ''OpenAI API not available''\<rparr>
      | CallFailed e \<Rightarrow> gpt_error e
      | NonJson response \<Rightarrow>
          (let response_lower = lower response in
           \<lparr>g_is_correct = PBool (contains response_lower ''correct''
                                   \<and> \<not> contains response_lower ''incorrect''),
            g_confidence = 0.6, g_expected_solution = PNone,
            g_reason = PStr (take 200 response)\<rparr>)
      | Json result \<Rightarrow>
          (case (case j_confidence result of None \<Rightarrow> Some 0.5 | Some v \<Rightarrow> as_number v) of
             None \<Rightarrow> gpt_error ''TypeError''
           | Some c \<Rightarrow>
               \<lparr>g_is_correct = (case j_is_correct result of None \<Rightarrow> PBool False | Some v \<Rightarrow> v),
                g_confidence = min 1.0 (max 0.0 c),
                g_expected_solution =
                  (case j_expected_solution result of None \<Rightarrow> PNone | Some v \<Rightarrow> v),
                g_reason = (case j_reason result of None \<Rightarrow> PNone | Some v \<Rightarrow> v)\<rparr>))"

text \<open>
  \<^verbatim>\<open>evaluate_challenge\<close> has one handler for every exception, so a failed call and a
  reply that is not JSON end in the same branch. The values under
  \<^verbatim>\<open>challenger_is_correct\<close> and \<^verbatim>\<open>assessment\<close> pass through unchecked.
\<close>

datatype eval_reply =
  EvalUnavailable | EvalFailed string | EvalJson "pyval option" "pyval option"

definition GPTSolver_evaluate_challenge :: "eval_reply \<Rightarrow> gpt_challenge_evaluation" where
  "GPTSolver_evaluate_challenge reply =
     (case reply of
        EvalUnavailable \<Rightarrow>
          \<lparr>e_is_valid = PBool False, e_assessment = PStr ''OpenAI API not available''\<rparr>
      | EvalFailed e \<Rightarrow>
          \<lparr>e_is_valid = PBool False, e_assessment = PStr (''Could not evaluate: '' @ e)\<rparr>
      | EvalJson c a \<Rightarrow>
          \<lparr>e_is_valid = (case c of None \<Rightarrow> PBool False | Some v \<Rightarrow> v),
           e_assessment = (case a of None \<Rightarrow> PStr [] | Some v \<Rightarrow> v)\<rparr>)"

section \<open>Verifier service: the two routes\<close>

text \<open>
  A route calls the verifier objects and builds its response inside \<^verbatim>\<open>try\<close>; any
  exception becomes an HTTP 500. The routes are modelled over arbitrary verifiers that
  may raise (\<open>Inl\<close> the message), and return the list of verifier calls they made
  together with the response. The first verifier returns judgments of declared types,
  as \<^verbatim>\<open>SympySolver\<close> does; the second returns what \<^verbatim>\<open>GPTSolver\<close> may return.
\<close>

datatype http_error = HTTPException nat string

datatype call = SympyVerify | GptVerify | GptEvaluateChallenge

type_synonym verifier = "string \<Rightarrow> string \<Rightarrow> problem_type \<Rightarrow> string + verification_result"

type_synonym gpt_verifier_fn =
  "string \<Rightarrow> string \<Rightarrow> problem_type \<Rightarrow> string + gpt_verification_result"

type_synonym challenge_evaluator =
  "string \<Rightarrow> string \<Rightarrow> string \<Rightarrow> problem_type \<Rightarrow> string + gpt_challenge_evaluation"

record verify_request =
  order_id :: int
  problem :: string
  solution :: string
  problem_type :: problem_type

record verify_response =
  vr_order_id :: int
  vr_is_correct :: bool
  vr_confidence :: real
  vr_method :: string
  vr_expected_solution :: "string option"
  vr_reason :: "string option"

text \<open>
  The response models are pydantic models: building one validates its fields, and a
  field that fails makes the constructor raise. A Boolean passes as a \<^verbatim>\<open>bool\<close> field and
  \<^verbatim>\<open>None\<close> does not; a string and \<^verbatim>\<open>None\<close> pass as an \<^verbatim>\<open>Optional[str]\<close> field. Which
  other values the library converts (a number or a string into a Boolean, a number
  into a string) is a parameter: \<open>None\<close> where it refuses. For the message of the
  \<^verbatim>\<open>ValidationError\<close> the model writes the name of the exception.
\<close>

record validator =
  coerce_bool :: "pyval \<Rightarrow> bool option"
  coerce_str :: "pyval \<Rightarrow> string option"

definition validate_bool :: "validator \<Rightarrow> pyval \<Rightarrow> bool option" where
  "validate_bool pyd v =
     (case v of PBool b \<Rightarrow> Some b | PNone \<Rightarrow> None | _ \<Rightarrow> coerce_bool pyd v)"

definition validate_opt_str :: "validator \<Rightarrow> pyval \<Rightarrow> string option option" where
  "validate_opt_str pyd v =
     (case v of
        PNone \<Rightarrow> Some None | PStr s \<Rightarrow> Some (Some s)
      | _ \<Rightarrow> map_option Some (coerce_str pyd v))"

definition VerifyResponse ::
  "validator \<Rightarrow> int \<Rightarrow> pyval \<Rightarrow> real \<Rightarrow> string \<Rightarrow> pyval \<Rightarrow> pyval \<Rightarrow> string + verify_response" where
  "VerifyResponse pyd oid correct conf method expected why =
     (case (validate_bool pyd correct, validate_opt_str pyd expected, validate_opt_str pyd why) of
        (Some b, Some e, Some r) \<Rightarrow>
          Inr \<lparr>vr_order_id = oid, vr_is_correct = b, vr_confidence = conf, vr_method = method,
               vr_expected_solution = e, vr_reason = r\<rparr>
      | _ \<Rightarrow> Inl ''ValidationError'')"

text \<open>
  Python's \<^verbatim>\<open>a or b\<close> with an optional string on the left: \<^verbatim>\<open>None\<close> and the empty string
  are falsy.
\<close>

definition py_or :: "string option \<Rightarrow> pyval \<Rightarrow> pyval" where
  "py_or a b = (case a of None \<Rightarrow> b | Some s \<Rightarrow> if s = [] then b else PStr s)"

text \<open>Lines 92 to 134 of \<^verbatim>\<open>verify_solution\<close>: both results are available.\<close>

definition combine_results ::
  "validator \<Rightarrow> int \<Rightarrow> verification_result \<Rightarrow> gpt_verification_result
     \<Rightarrow> string + verify_response" where
  "combine_results pyd oid sympy_result gpt_result =
     (if confidence sympy_result > 0 \<and> g_confidence gpt_result > 0 then
        (if py_eq_bool (is_correct sympy_result) (g_is_correct gpt_result) then
           VerifyResponse pyd oid
             (PBool (is_correct sympy_result))
             (min 1.0 ((confidence sympy_result + g_confidence gpt_result) / 1.5))
             ''sympy+gpt''
             (py_or (expected_solution sympy_result) (g_expected_solution gpt_result))
             (PStr (''Both methods agree: '' @ py_str (g_reason gpt_result)))
         else if confidence sympy_result > g_confidence gpt_result then
           VerifyResponse pyd oid
             (PBool (is_correct sympy_result))
             (confidence sympy_result * 0.8)
             ''sympy (disputed)''
             (opt_str (expected_solution sympy_result))
             (PStr ''SymPy result, but GPT disagrees'')
         else
           VerifyResponse pyd oid
             (g_is_correct gpt_result)
             (g_confidence gpt_result * 0.8)
             ''gpt (disputed)''
             (g_expected_solution gpt_result)
             (PStr ''GPT result, but SymPy disagrees''))
      else
        VerifyResponse pyd oid
          (g_is_correct gpt_result)
          (g_confidence gpt_result)
          ''gpt''
          (g_expected_solution gpt_result)
          (g_reason gpt_result))"

definition verification_failed :: "string + verify_response \<Rightarrow> http_error + verify_response" where
  "verification_failed r =
     (case r of
        Inl e \<Rightarrow> Inl (HTTPException 500 (''Verification failed: '' @ e))
      | Inr response \<Rightarrow> Inr response)"

definition verify_solution ::
  "validator \<Rightarrow> verifier \<Rightarrow> gpt_verifier_fn \<Rightarrow> verify_request
     \<Rightarrow> call list \<times> (http_error + verify_response)" where
  "verify_solution pyd sympy_solver gpt_solver request =
     (case sympy_solver (problem request) (solution request) (problem_type request) of
        Inl e \<Rightarrow> ([SympyVerify], verification_failed (Inl e))
      | Inr sympy_result \<Rightarrow>
          if confidence sympy_result \<ge> 0.9 then
            ([SympyVerify],
             verification_failed
               (VerifyResponse pyd (order_id request)
                  (PBool (is_correct sympy_result))
                  (confidence sympy_result)
                  ''sympy''
                  (opt_str (expected_solution sympy_result))
                  (opt_str (reason sympy_result))))
          else
            (case gpt_solver (problem request) (solution request) (problem_type request) of
               Inl e \<Rightarrow> ([SympyVerify, GptVerify], verification_failed (Inl e))
             | Inr gpt_result \<Rightarrow>
                 ([SympyVerify, GptVerify],
                  verification_failed
                    (combine_results pyd (order_id request) sympy_result gpt_result))))"

text \<open>
  \<^verbatim>\<open>process_challenge\<close>. The analysis text is kept as its list of parts (joined with
  \<^verbatim>\<open>" | "\<close> in the source); a part that prints a verdict keeps the verdict and the
  confidence instead of their rendering.
\<close>

record challenge_request =
  c_order_id :: int
  c_problem :: string
  submitted_solution :: string
  c_problem_type :: problem_type
  challenger_reason :: string

datatype analysis_part =
  SympySays bool real | GptSays bool real | ChallengerArgument string | Remark string

record challenge_response =
  cr_order_id :: int
  challenger_wins :: bool
  cr_confidence :: real
  correct_solution :: "string option"
  analysis :: "analysis_part list"

definition ChallengeResponse ::
  "validator \<Rightarrow> int \<Rightarrow> bool \<Rightarrow> real \<Rightarrow> pyval \<Rightarrow> analysis_part list
     \<Rightarrow> string + challenge_response" where
  "ChallengeResponse pyd oid wins conf correct parts =
     (case validate_opt_str pyd correct of
        Some s \<Rightarrow>
          Inr \<lparr>cr_order_id = oid, challenger_wins = wins, cr_confidence = conf,
               correct_solution = s, analysis = parts\<rparr>
      | None \<Rightarrow> Inl ''ValidationError'')"

text \<open>
  Lines 98 to 130: \<^verbatim>\<open>solution_is_incorrect\<close>, \<^verbatim>\<open>confidence\<close> and the part appended to the
  analysis, by the \<^verbatim>\<open>if\<close>/\<^verbatim>\<open>elif\<close> chain. The conditions take the truth value of what
  the GPT objects hold.
\<close>

definition determine_outcome ::
  "verification_result \<Rightarrow> gpt_verification_result \<Rightarrow> gpt_challenge_evaluation
     \<Rightarrow> bool \<times> real \<times> analysis_part list" where
  "determine_outcome sympy_result gpt_result challenger_evaluation =
     (if \<not> is_correct sympy_result \<and> confidence sympy_result > 0.8 \<and>
         \<not> truthy (g_is_correct gpt_result) \<and> g_confidence gpt_result > 0.8 then
        (True, 0.95, [])
      else if is_correct sympy_result \<and> confidence sympy_result > 0.8 \<and>
              truthy (g_is_correct gpt_result) \<and> g_confidence gpt_result > 0.8 then
        (False, 0.95, [])
      else if confidence sympy_result > 0.9 then
        (\<not> is_correct sympy_result, confidence sympy_result * 0.9, [])
      else if g_confidence gpt_result > 0.9 then
        (\<not> truthy (g_is_correct gpt_result), g_confidence gpt_result * 0.85, [])
      else if truthy (e_is_valid challenger_evaluation) then
        (True, 0.7, [Remark ''Challenger's mathematical argument appears valid''])
      else
        (False, 0.6, [Remark ''Insufficient evidence to overturn solution'']))"

definition challenge_verdict ::
  "validator \<Rightarrow> int \<Rightarrow> verification_result \<Rightarrow> gpt_verification_result
     \<Rightarrow> gpt_challenge_evaluation \<Rightarrow> string + challenge_response" where
  "challenge_verdict pyd oid sympy_result gpt_result challenger_evaluation =
     (let analysis_parts =
            (if confidence sympy_result > 0.5
             then [SympySays (is_correct sympy_result) (confidence sympy_result)] else []) @
            (if g_confidence gpt_result > 0.5
             then [GptSays (truthy (g_is_correct gpt_result)) (g_confidence gpt_result)]
             else []) @
            [ChallengerArgument (py_str (e_assessment challenger_evaluation))];
          (solution_is_incorrect, conf, note) =
            determine_outcome sympy_result gpt_result challenger_evaluation
      in ChallengeResponse pyd oid solution_is_incorrect conf
           (py_or (expected_solution sympy_result) (g_expected_solution gpt_result))
           (analysis_parts @ note))"

definition challenge_failed ::
  "string + challenge_response \<Rightarrow> http_error + challenge_response" where
  "challenge_failed r =
     (case r of
        Inl e \<Rightarrow> Inl (HTTPException 500 (''Challenge processing failed: '' @ e))
      | Inr response \<Rightarrow> Inr response)"

definition process_challenge ::
  "validator \<Rightarrow> verifier \<Rightarrow> gpt_verifier_fn \<Rightarrow> challenge_evaluator \<Rightarrow> challenge_request
     \<Rightarrow> call list \<times> (http_error + challenge_response)" where
  "process_challenge pyd sympy_solver gpt_solver evaluator request =
     (case sympy_solver (c_problem request) (submitted_solution request)
             (c_problem_type request) of
        Inl e \<Rightarrow> ([SympyVerify], challenge_failed (Inl e))
      | Inr sympy_result \<Rightarrow>
          (case gpt_solver (c_problem request) (submitted_solution request)
                  (c_problem_type request) of
             Inl e \<Rightarrow> ([SympyVerify, GptVerify], challenge_failed (Inl e))
           | Inr gpt_result \<Rightarrow>
               (case evaluator (c_problem request) (submitted_solution request)
                       (challenger_reason request) (c_problem_type request) of
                  Inl e \<Rightarrow>
                    ([SympyVerify, GptVerify, GptEvaluateChallenge], challenge_failed (Inl e))
                | Inr challenger_evaluation \<Rightarrow>
                    ([SympyVerify, GptVerify, GptEvaluateChallenge],
                     challenge_failed
                       (challenge_verdict pyd (c_order_id request) sympy_result gpt_result
                          challenger_evaluation)))))"

text \<open>
  The deployed routes: the verifier objects are a \<^verbatim>\<open>SympySolver\<close> and a \<^verbatim>\<open>GPTSolver\<close>,
  whose \<^verbatim>\<open>verify\<close> and \<^verbatim>\<open>evaluate_challenge\<close> catch every exception.
\<close>

definition sympy_verifier :: "'e sympy_lib \<Rightarrow> verifier" where
  "sympy_verifier lib = (\<lambda>p s t. Inr (SympySolver_verify lib p s t))"

definition gpt_verifier :: "gpt_reply \<Rightarrow> gpt_verifier_fn" where
  "gpt_verifier reply = (\<lambda>p s t. Inr (GPTSolver_verify reply))"

definition gpt_evaluator :: "eval_reply \<Rightarrow> challenge_evaluator" where
  "gpt_evaluator reply = (\<lambda>p s r t. Inr (GPTSolver_evaluate_challenge reply))"

section \<open>Indexer: the mirror store\<close>

text \<open>
  \<^verbatim>\<open>indexer/models.py\<close>. The three dataclasses are the rows of the three tables; a field
  whose name another record already uses carries a prefix. Timestamps are seconds.
\<close>

record order =
  o_id :: int
  issuer :: string
  problem_hash :: string
  o_problem_type :: int
  time_tier :: int
  status :: int
  reward :: string
  created_at :: int
  deadline :: int
  solver :: "string option"
  tx_hash :: "string option"
  block_number :: "int option"

record solution_row =
  s_order_id :: int
  s_solver :: string
  commit_hash :: string
  s_solution :: "string option"
  salt :: "string option"
  commit_time :: "int option"
  reveal_time :: "int option"
  is_revealed :: bool
  s_tx_hash :: "string option"

record challenge_row =
  ch_order_id :: int
  challenger :: string
  stake :: string
  ch_reason :: string
  challenge_time :: int
  resolved :: bool
  challenger_won :: bool
  ch_tx_hash :: "string option"

text \<open>
  \<^verbatim>\<open>class Database\<close>: \<open>pool\<close> says whether the connection pool exists; each table is a
  map from its primary key. Every statement runs on its own, so a statement that has
  been executed stays executed when a later one raises.
\<close>

record database =
  pool :: bool
  orders :: "int \<rightharpoonup> order"
  solutions :: "int \<rightharpoonup> solution_row"
  challenges :: "int \<rightharpoonup> challenge_row"

text \<open>
  \<^verbatim>\<open>INSERT ... ON CONFLICT (id) DO UPDATE SET status, solver\<close>. The Boolean that the
  three inserts return is read by no caller and is left out.
\<close>

definition insert_order :: "database \<Rightarrow> order \<Rightarrow> database" where
  "insert_order db ord =
     (if \<not> pool db then db
      else db\<lparr>orders := (orders db)(o_id ord \<mapsto>
             (case orders db (o_id ord) of
                None \<Rightarrow> ord
              | Some old \<Rightarrow> old\<lparr>status := status ord, solver := solver ord\<rparr>))\<rparr>)"

text \<open>\<^verbatim>\<open>if solver:\<close> is false for \<^verbatim>\<open>None\<close> and for the empty string.\<close>

definition update_order_status :: "database \<Rightarrow> int \<Rightarrow> int \<Rightarrow> string option \<Rightarrow> database" where
  "update_order_status db oid st slv =
     (if \<not> pool db then db
      else (case orders db oid of
              None \<Rightarrow> db
            | Some old \<Rightarrow>
                (if slv \<noteq> None \<and> slv \<noteq> Some []
                 then db\<lparr>orders := (orders db)(oid \<mapsto> old\<lparr>status := st, solver := slv\<rparr>)\<rparr>
                 else db\<lparr>orders := (orders db)(oid \<mapsto> old\<lparr>status := st\<rparr>)\<rparr>)))"

text \<open>
  \<^verbatim>\<open>solutions.order_id\<close> and \<^verbatim>\<open>challenges.order_id\<close> reference \<^verbatim>\<open>orders(id)\<close>: inserting
  a row for an order that the store does not hold raises (\<open>Inl\<close>).
\<close>

definition insert_solution :: "database \<Rightarrow> solution_row \<Rightarrow> string + database" where
  "insert_solution db sol =
     (if \<not> pool db then Inr db
      else (case solutions db (s_order_id sol) of
              Some old \<Rightarrow>
                Inr (db\<lparr>solutions := (solutions db)(s_order_id sol \<mapsto>
                       old\<lparr>s_solution := s_solution sol, salt := salt sol,
                           reveal_time := reveal_time sol,
                           is_revealed := is_revealed sol\<rparr>)\<rparr>)
            | None \<Rightarrow>
                (if orders db (s_order_id sol) = None then Inl ''ForeignKeyViolationError''
                 else Inr (db\<lparr>solutions := (solutions db)(s_order_id sol \<mapsto> sol)\<rparr>))))"

text \<open>
  \<^verbatim>\<open>SELECT * FROM solutions WHERE order_id = $1\<close>: the row found carries the order id
  that was asked for.
\<close>

definition get_solution :: "database \<Rightarrow> int \<Rightarrow> solution_row option" where
  "get_solution db oid =
     (if \<not> pool db then None
      else map_option (\<lambda>row. row\<lparr>s_order_id := oid\<rparr>) (solutions db oid))"

definition insert_challenge :: "database \<Rightarrow> challenge_row \<Rightarrow> string + database" where
  "insert_challenge db ch =
     (if \<not> pool db then Inr db
      else (case challenges db (ch_order_id ch) of
              Some old \<Rightarrow>
                Inr (db\<lparr>challenges := (challenges db)(ch_order_id ch \<mapsto>
                       old\<lparr>resolved := resolved ch, challenger_won := challenger_won ch\<rparr>)\<rparr>)
            | None \<Rightarrow>
                (if orders db (ch_order_id ch) = None then Inl ''ForeignKeyViolationError''
                 else Inr (db\<lparr>challenges := (challenges db)(ch_order_id ch \<mapsto> ch)\<rparr>))))"

section \<open>Indexer: the event listener\<close>

text \<open>
  \<^verbatim>\<open>indexer/event_listener.py\<close>. An event carries the arguments of its ABI entry; reading
  an argument that the event does not have raises \<^verbatim>\<open>AttributeError\<close>.
\<close>

datatype event_type =
  ProblemPosted | OrderAccepted | SolutionCommitted | SolutionRevealed
  | ChallengeSubmitted | ChallengeResolved | OrderExpired

datatype event_args =
  ProblemPostedArgs string int int int
  | OrderAcceptedArgs string
  | SolutionCommittedArgs string string
  | SolutionRevealedArgs string string
  | ChallengeSubmittedArgs string int
  | ChallengeResolvedArgs bool string
  | OrderExpiredArgs

record event =
  orderId :: int
  args :: event_args
  blockNumber :: int
  transactionHash :: string

text \<open>
  The node: the head height, the logs of one event type in a closed range of heights,
  and the timestamp of a block. Each request may fail (\<open>Inl\<close>).
\<close>

record ledger =
  eth_block_number :: "string + int"
  get_logs :: "event_type \<Rightarrow> int \<Rightarrow> int \<Rightarrow> string + event list"
  get_block_timestamp :: "int \<Rightarrow> string + int"

datatype log_line = LogInfo string | LogError string

text \<open>
  The fields of \<^verbatim>\<open>EventListener\<close> that change, and what it wrote to its logger (oldest
  line first). The websocket broadcast after a handled event does not touch the store
  and is left out.
\<close>

record listener =
  database :: database
  running :: bool
  last_processed_block :: int
  logged :: "log_line list"

fun str_nat :: "nat \<Rightarrow> string" where
  "str_nat n =
     (if n < 10 then [char_of (48 + n)] else str_nat (n div 10) @ [char_of (48 + n mod 10)])"

definition str_int :: "int \<Rightarrow> string" where
  "str_int i = (if i < 0 then CHR ''-'' # str_nat (nat (- i)) else str_nat (nat i))"

definition event_type_name :: "event_type \<Rightarrow> string" where
  "event_type_name t =
     (case t of
        ProblemPosted \<Rightarrow> ''ProblemPosted'' | OrderAccepted \<Rightarrow> ''OrderAccepted''
      | SolutionCommitted \<Rightarrow> ''SolutionCommitted'' | SolutionRevealed \<Rightarrow> ''SolutionRevealed''
      | ChallengeSubmitted \<Rightarrow> ''ChallengeSubmitted'' | ChallengeResolved \<Rightarrow> ''ChallengeResolved''
      | OrderExpired \<Rightarrow> ''OrderExpired'')"

text \<open>The five handlers: the store after the event, or the exception raised.\<close>

definition handle_problem_posted :: "database \<Rightarrow> event \<Rightarrow> int \<Rightarrow> string \<Rightarrow> string + database" where
  "handle_problem_posted db ev timestamp txh =
     (case args ev of
        ProblemPostedArgs iss ptype tier rew \<Rightarrow>
          Inr (insert_order db
                 \<lparr>o_id = orderId ev, issuer = iss, problem_hash = [],
                  o_problem_type = ptype, time_tier = tier, status = 0,
                  reward = str_int rew, created_at = timestamp, deadline = timestamp,
                  solver = None, tx_hash = Some txh, block_number = Some (blockNumber ev)\<rparr>)
      | _ \<Rightarrow> Inl ''AttributeError'')"

definition handle_order_accepted :: "database \<Rightarrow> event \<Rightarrow> int \<Rightarrow> string \<Rightarrow> string + database" where
  "handle_order_accepted db ev timestamp txh =
     (case args ev of
        OrderAcceptedArgs slv \<Rightarrow> Inr (update_order_status db (orderId ev) 1 (Some slv))
      | _ \<Rightarrow> Inl ''AttributeError'')"

definition handle_solution_committed :: "database \<Rightarrow> event \<Rightarrow> int \<Rightarrow> string \<Rightarrow> string + database" where
  "handle_solution_committed db ev timestamp txh =
     (case args ev of
        SolutionCommittedArgs slv chash \<Rightarrow>
          (case insert_solution db
                  \<lparr>s_order_id = orderId ev, s_solver = slv, commit_hash = chash,
                   s_solution = None, salt = None, commit_time = Some timestamp,
                   reveal_time = None, is_revealed = False, s_tx_hash = Some txh\<rparr> of
             Inl e \<Rightarrow> Inl e
           | Inr db' \<Rightarrow> Inr (update_order_status db' (orderId ev) 2 None))
      | _ \<Rightarrow> Inl ''AttributeError'')"

definition handle_solution_revealed :: "database \<Rightarrow> event \<Rightarrow> int \<Rightarrow> string \<Rightarrow> string + database" where
  "handle_solution_revealed db ev timestamp txh =
     (case get_solution db (orderId ev) of
        Some existing \<Rightarrow>
          (case args ev of
             SolutionRevealedArgs slv sol \<Rightarrow>
               (case insert_solution db
                       (existing\<lparr>s_solution := Some sol, reveal_time := Some timestamp,
                                 is_revealed := True\<rparr>) of
                  Inl e \<Rightarrow> Inl e
                | Inr db' \<Rightarrow> Inr (update_order_status db' (orderId ev) 3 None))
           | _ \<Rightarrow> Inl ''AttributeError'')
      | None \<Rightarrow> Inr (update_order_status db (orderId ev) 3 None))"

definition handle_challenge_submitted :: "database \<Rightarrow> event \<Rightarrow> int \<Rightarrow> string \<Rightarrow> string + database" where
  "handle_challenge_submitted db ev timestamp txh =
     (case args ev of
        ChallengeSubmittedArgs chal stk \<Rightarrow>
          (case insert_challenge db
                  \<lparr>ch_order_id = orderId ev, challenger = chal, stake = str_int stk,
                   ch_reason = [], challenge_time = timestamp, resolved = False,
                   challenger_won = False, ch_tx_hash = Some txh\<rparr> of
             Inl e \<Rightarrow> Inl e
           | Inr db' \<Rightarrow> Inr (update_order_status db' (orderId ev) 5 None))
      | _ \<Rightarrow> Inl ''AttributeError'')"

text \<open>
  \<^verbatim>\<open>_handle_event\<close>: dispatch on the event type; an event type without a branch changes
  nothing. An exception is logged and swallowed. In each handler the statement that can
  raise is the first one that writes, so the store of a failed handler is the store
  before it.
\<close>

definition apply_event :: "database \<Rightarrow> event_type \<Rightarrow> event \<Rightarrow> int \<Rightarrow> string + database" where
  "apply_event db etype ev timestamp =
     (case etype of
        ProblemPosted \<Rightarrow> handle_problem_posted db ev timestamp (transactionHash ev)
      | OrderAccepted \<Rightarrow> handle_order_accepted db ev timestamp (transactionHash ev)
      | SolutionCommitted \<Rightarrow> handle_solution_committed db ev timestamp (transactionHash ev)
      | SolutionRevealed \<Rightarrow> handle_solution_revealed db ev timestamp (transactionHash ev)
      | ChallengeSubmitted \<Rightarrow> handle_challenge_submitted db ev timestamp (transactionHash ev)
      | _ \<Rightarrow> Inr db)"

definition indexed_line :: "event_type \<Rightarrow> event \<Rightarrow> log_line list" where
  "indexed_line etype ev =
     (if etype \<in> {ProblemPosted, OrderAccepted, SolutionCommitted, SolutionRevealed,
                   ChallengeSubmitted}
      then [LogInfo (''Indexed '' @ event_type_name etype @ '' #'' @ str_int (orderId ev))]
      else [])"

definition handle_event :: "ledger \<Rightarrow> listener \<Rightarrow> event_type \<times> event \<Rightarrow> listener" where
  "handle_event node st te =
     (case te of (etype, ev) \<Rightarrow>
        (case get_block_timestamp node (blockNumber ev) of
           Inl e \<Rightarrow>
             st\<lparr>logged := logged st @
                  [LogError (''Error handling '' @ event_type_name etype @ '': '' @ e)]\<rparr>
         | Inr timestamp \<Rightarrow>
             (case apply_event (database st) etype ev timestamp of
                Inl e \<Rightarrow>
                  st\<lparr>logged := logged st @
                       [LogError (''Error handling '' @ event_type_name etype @ '': '' @ e)]\<rparr>
              | Inr db' \<Rightarrow>
                  st\<lparr>database := db', logged := logged st @ indexed_line etype ev\<rparr>)))"

text \<open>
  \<^verbatim>\<open>_process_block_range\<close>: the logs of five event types are fetched one type after the
  other; only when all five requests have answered are the events handled, in the order
  fetched. A failed request is logged and the range is given up.
\<close>

definition fetch_events :: "ledger \<Rightarrow> int \<Rightarrow> int \<Rightarrow> string + (event_type \<times> event) list" where
  "fetch_events node from_block to_block =
     (case get_logs node ProblemPosted from_block to_block of
        Inl e \<Rightarrow> Inl e
      | Inr problem_events \<Rightarrow>
     (case get_logs node OrderAccepted from_block to_block of
        Inl e \<Rightarrow> Inl e
      | Inr accepted_events \<Rightarrow>
     (case get_logs node SolutionCommitted from_block to_block of
        Inl e \<Rightarrow> Inl e
      | Inr commit_events \<Rightarrow>
     (case get_logs node SolutionRevealed from_block to_block of
        Inl e \<Rightarrow> Inl e
      | Inr reveal_events \<Rightarrow>
     (case get_logs node ChallengeSubmitted from_block to_block of
        Inl e \<Rightarrow> Inl e
      | Inr challenge_events \<Rightarrow>
          Inr (map (Pair ProblemPosted) problem_events @
               map (Pair OrderAccepted) accepted_events @
               map (Pair SolutionCommitted) commit_events @
               map (Pair SolutionRevealed) reveal_events @
               map (Pair ChallengeSubmitted) challenge_events))))))"

definition process_block_range :: "ledger \<Rightarrow> listener \<Rightarrow> int \<Rightarrow> int \<Rightarrow> listener" where
  "process_block_range node st from_block to_block =
     (case fetch_events node from_block to_block of
        Inl e \<Rightarrow>
          st\<lparr>logged := logged st @
               [LogError (''Error processing blocks '' @ str_int from_block @ ''-'' @
                          str_int to_block @ '': '' @ e)]\<rparr>
      | Inr events \<Rightarrow> foldl (handle_event node) st events)"

text \<open>
  \<^verbatim>\<open>_sync_historical_events\<close>. Reading the head height is outside any \<^verbatim>\<open>try\<close>: its
  failure leaves the function as an exception. \<open>running\<close> is changed by \<^verbatim>\<open>stop\<close> only;
  within one run of the loop it is what the listener holds.
\<close>

definition chunk_size :: int where
  "chunk_size = 1000"

function sync_loop :: "ledger \<Rightarrow> int \<Rightarrow> int \<Rightarrow> listener \<Rightarrow> listener" where
  "sync_loop node current_block from_block st =
     (if from_block < current_block \<and> running st then
        (let to_block = min (from_block + chunk_size) current_block;
             st' = process_block_range node st from_block to_block
         in sync_loop node current_block (to_block + 1)
              (st'\<lparr>last_processed_block := to_block\<rparr>))
      else st)"
  by pat_completeness auto
termination
  by (relation "measure (\<lambda>(node, current_block, from_block, st). nat (current_block - from_block))")
     (auto simp: chunk_size_def)

definition sync_historical_events :: "ledger \<Rightarrow> listener \<Rightarrow> string + listener" where
  "sync_historical_events node st =
     (case eth_block_number node of
        Inl e \<Rightarrow> Inl e
      | Inr current_block \<Rightarrow>
          (if last_processed_block st \<ge> current_block then Inr st
           else
             (let st1 = st\<lparr>logged := logged st @
                          [LogInfo (''Syncing historical events from '' @
                                    str_int (last_processed_block st) @ '' to '' @
                                    str_int current_block)]\<rparr>;
                  st2 = sync_loop node current_block (last_processed_block st1) st1
              in Inr (st2\<lparr>logged := logged st2 @
                          [LogInfo (''Historical sync complete. At block '' @
                                    str_int (last_processed_block st2))]\<rparr>))))"

text \<open>One round of the \<^verbatim>\<open>while\<close> loop of \<^verbatim>\<open>_listen_for_new_events\<close>.\<close>

definition listen_round :: "ledger \<Rightarrow> listener \<Rightarrow> listener" where
  "listen_round node st =
     (case eth_block_number node of
        Inl e \<Rightarrow> st\<lparr>logged := logged st @ [LogError (''Error listening for events: '' @ e)]\<rparr>
      | Inr current_block \<Rightarrow>
          (if current_block > last_processed_block st then
             (process_block_range node st (last_processed_block st + 1) current_block)
               \<lparr>last_processed_block := current_block\<rparr>
           else st))"

section \<open>Solver bot: commit, then reveal\<close>

text \<open>
  \<^verbatim>\<open>sdk/bot_server.py\<close>. The chain is seen through the SDK: \<^verbatim>\<open>get_order\<close>,
  \<^verbatim>\<open>commit_solution\<close> and \<^verbatim>\<open>reveal_solution\<close> either raise (\<open>Inl\<close>) or answer; a
  submission answers with \<^verbatim>\<open>receipt.success\<close>. \<^verbatim>\<open>OminisSDK.reveal_solution\<close> itself
  builds the transaction and sends it, with no check of its own.
\<close>

datatype order_status =
  OPEN | ACCEPTED | COMMITTED | REVEALED | VERIFIED | CHALLENGED | EXPIRED | CANCELLED

text \<open>The fields of the SDK's \<^verbatim>\<open>Order\<close> that the bot reads.\<close>

record sdk_order =
  sdk_status :: order_status
  time_remaining :: int
  sdk_solver :: "string option"

record chain =
  fresh_order :: "string + sdk_order"
  commit_solution :: "string + bool"
  check_order :: "nat \<Rightarrow> string + sdk_order"
  reveal_solution :: "string + bool"

text \<open>
  What the bot does to the outside, in order: a sleep of so many seconds, a read of the
  order, a commit or a reveal handed to the SDK, a warning written to its log.
\<close>

datatype effect = Sleep nat | GetOrder | CommitSolution | RevealSolution | AddLog string string

text \<open>
  How one attempt ends; each value is one branch of the source, named after the log
  line that the branch writes.
\<close>

datatype submit_outcome =
  Solved | RevealFailed | CommitFailedAfterRetries | SomeoneElseAccepted
  | AlreadyCommitted | SubmitError string | ProcessingError string

text \<open>
  \<^verbatim>\<open>for retry in range(n): sleep(3); check_order = get_order(...); if COMMITTED: break\<close>.
  The result says whether \<^verbatim>\<open>COMMITTED\<close> was seen; \<open>k\<close> counts the reads made so far.
\<close>

fun poll_committed ::
  "(nat \<Rightarrow> string + sdk_order) \<Rightarrow> nat \<Rightarrow> nat \<Rightarrow> effect list \<times> (string + bool)" where
  "poll_committed check 0 k = ([], Inr False)"
| "poll_committed check (Suc n) k =
     (case check k of
        Inl e \<Rightarrow> ([Sleep 3, GetOrder], Inl e)
      | Inr ord \<Rightarrow>
          (if sdk_status ord = COMMITTED then ([Sleep 3, GetOrder], Inr True)
           else (case poll_committed check n (Suc k) of
                   (effs, r) \<Rightarrow> (Sleep 3 # GetOrder # effs, r))))"

definition reveal_step :: "chain \<Rightarrow> effect list \<times> submit_outcome" where
  "reveal_step env =
     (case reveal_solution env of
        Inl e \<Rightarrow> ([RevealSolution, GetOrder], SubmitError e)
      | Inr success \<Rightarrow> ([RevealSolution], if success then Solved else RevealFailed))"

text \<open>
  \<^verbatim>\<open>bot_loop\<close>, step 3 (lines 405 to 468): the order is read again, then committed and
  revealed. An exception of the submission is caught by the inner handler, which reads
  the order once more for its log; any other exception by the handler of the order.
\<close>

definition bot_submit :: "string \<Rightarrow> chain \<Rightarrow> effect list \<times> submit_outcome" where
  "bot_submit address env =
     (case fresh_order env of
        Inl e \<Rightarrow> ([GetOrder], ProcessingError e)
      | Inr fresh \<Rightarrow>
     (case sdk_solver fresh of
        None \<Rightarrow> ([GetOrder], ProcessingError ''TypeError'')
      | Some slv \<Rightarrow>
          (let warn = (if time_remaining fresh < 30
                       then [AddLog (''[BOT] WARNING: Only '' @ str_int (time_remaining fresh)
                                     @ ''s left!'') ''warning'']
                       else [])
           in if lower slv \<noteq> lower address then (GetOrder # warn, SomeoneElseAccepted)
              else if sdk_status fresh = COMMITTED then (GetOrder # warn, AlreadyCommitted)
              else
                (case commit_solution env of
                   Inl e \<Rightarrow> (GetOrder # warn @ [CommitSolution, GetOrder], SubmitError e)
                 | Inr committed \<Rightarrow>
                     (if \<not> committed then
                        (case poll_committed (check_order env) 5 0 of
                           (effs, Inl e) \<Rightarrow>
                             (GetOrder # warn @ [CommitSolution] @ effs @ [GetOrder],
                              SubmitError e)
                         | (effs, Inr seen) \<Rightarrow>
                             (if \<not> seen then
                                (GetOrder # warn @ [CommitSolution] @ effs,
                                 CommitFailedAfterRetries)
                              else
                                (case reveal_step env of
                                   (reffs, res) \<Rightarrow>
                                     (GetOrder # warn @ [CommitSolution] @ effs @ reffs,
                                      res))))
                      else
                        (case reveal_step env of
                           (reffs, res) \<Rightarrow>
                             (GetOrder # warn @ [CommitSolution, Sleep 3] @ reffs, res)))))))"

text \<open>
  \<^verbatim>\<open>AutoSolver.solve_and_submit\<close>, from the commit on (lines 674 to 714): three re-polls,
  one handler for every exception, the result \<^verbatim>\<open>True\<close> only for a revealed order.
\<close>

definition solve_and_submit :: "chain \<Rightarrow> effect list \<times> bool" where
  "solve_and_submit env =
     (case commit_solution env of
        Inl e \<Rightarrow> ([CommitSolution], False)
      | Inr committed \<Rightarrow>
          (case (if \<not> committed then poll_committed (check_order env) 3 0
                 else ([], Inr True)) of
             (effs, Inl e) \<Rightarrow> (CommitSolution # effs, False)
           | (effs, Inr seen) \<Rightarrow>
               (if \<not> seen then (CommitSolution # effs, False)
                else
                  (case reveal_solution env of
                     Inl e \<Rightarrow> (CommitSolution # effs @ [Sleep 3, RevealSolution], False)
                   | Inr success \<Rightarrow>
                       (CommitSolution # effs @ [Sleep 3, RevealSolution], success)))))"


text \<open>
  The webhook route \<^verbatim>\<open>/webhook/problem\<close> with \<^verbatim>\<open>submit_to_chain\<close>, from the commit on
  (\<^verbatim>\<open>bot_server.py\<close>, lines 1479 to 1532): three re-polls after a failed receipt, a sleep
  of 2 seconds before the reveal, one handler for every exception. The result is the
  last value written to \<^verbatim>\<open>webhook_solution_status[order_id]['status']\<close>.
\<close>

definition webhook_submit :: "chain \<Rightarrow> effect list \<times> string" where
  "webhook_submit env =
     (case commit_solution env of
        Inl e \<Rightarrow> ([CommitSolution], ''chain_error'')
      | Inr committed \<Rightarrow>
          (case (if \<not> committed then poll_committed (check_order env) 3 0
                 else ([], Inr True)) of
             (effs, Inl e) \<Rightarrow> (CommitSolution # effs, ''chain_error'')
           | (effs, Inr seen) \<Rightarrow>
               (if \<not> seen then (CommitSolution # effs, ''commit_failed'')
                else
                  (case reveal_solution env of
                     Inl e \<Rightarrow> (CommitSolution # effs @ [Sleep 2, RevealSolution], ''chain_error'')
                   | Inr success \<Rightarrow>
                       (CommitSolution # effs @ [Sleep 2, RevealSolution],
                        if success then ''completed'' else ''reveal_failed'')))))"

text \<open>
  \<^verbatim>\<open>OminisSDK.submit_solution\<close> (\<^verbatim>\<open>sdk/ominis_sdk.py\<close>, lines 462 to 487), the commit and
  reveal in one call that \<^verbatim>\<open>examples/solver_bot.py\<close> uses. A failed commit receipt raises
  \<^verbatim>\<open>Exception(f"Commit failed: {commit_receipt.tx_hash}")\<close> at once (\<open>CommitFailed\<close>; the
  transaction hash is not part of the model); an exception of the SDK passes through
  (\<open>SdkRaised\<close>). Otherwise the method sleeps 2 seconds, reveals and returns both
  receipts, here their \<^verbatim>\<open>success\<close> flags.
\<close>

datatype submit_error = CommitFailed | SdkRaised string

definition submit_solution :: "chain \<Rightarrow> effect list \<times> (submit_error + bool \<times> bool)" where
  "submit_solution env =
     (case commit_solution env of
        Inl e \<Rightarrow> ([CommitSolution], Inl (SdkRaised e))
      | Inr committed \<Rightarrow>
          (if \<not> committed then ([CommitSolution], Inl CommitFailed)
           else
             (case reveal_solution env of
                Inl e \<Rightarrow> ([CommitSolution, Sleep 2, RevealSolution], Inl (SdkRaised e))
              | Inr revealed \<Rightarrow>
                  ([CommitSolution, Sleep 2, RevealSolution], Inr (committed, revealed)))))"
section \<open>The specification's tables and sample inputs\<close>



text \<open>
  The failure modes of the two verifiers with the confidence each one reports;
  \<open>None\<close> when the verifier reached its own judgment.
\<close>

definition sympy_failure :: "'e sympy_lib \<Rightarrow> string \<Rightarrow> string \<Rightarrow> problem_type \<Rightarrow> real option" where
  "sympy_failure lib p s t =
     (case parse_problem lib p of
        Inl e \<Rightarrow> Some 0.1
      | Inr None \<Rightarrow> Some 0
      | Inr (Some expr) \<Rightarrow>
          (case compute_solution lib expr t p of
             None \<Rightarrow> Some 0.3
           | Some expected \<Rightarrow>
               (case parse_expression lib s of
                  Inl e \<Rightarrow> Some 0.1
                | Inr None \<Rightarrow> Some 0.5
                | Inr (Some submitted) \<Rightarrow> None)))"

definition gpt_failure :: "gpt_reply \<Rightarrow> real option" where
  "gpt_failure reply =
     (case reply of
        Unavailable \<Rightarrow> Some 0
      | CallFailed e \<Rightarrow> Some 0
      | NonJson response \<Rightarrow> Some 0.6
      | Json result \<Rightarrow>
          (case j_confidence result of
             None \<Rightarrow> None
           | Some v \<Rightarrow> if as_number v = None then Some 0 else None))"

text \<open>
  The fields of a GPT judgment have the declared types: a Boolean verdict, and a string
  or \<^verbatim>\<open>None\<close> as expected solution and as reason.
\<close>

definition declared_types :: "gpt_verification_result \<Rightarrow> bool" where
  "declared_types g =
     ((case g_is_correct g of PBool b \<Rightarrow> True | _ \<Rightarrow> False) \<and>
      (case g_expected_solution g of PNone \<Rightarrow> True | PStr s \<Rightarrow> True | _ \<Rightarrow> False) \<and>
      (case g_reason g of PNone \<Rightarrow> True | PStr s \<Rightarrow> True | _ \<Rightarrow> False))"

text \<open>Sample symbolic libraries, replies and requests for the concrete instances below.\<close>

definition matching_lib :: "unit sympy_lib" where
  "matching_lib =
     \<lparr>parse_problem = (\<lambda>p. Inr (Some ())), compute_solution = (\<lambda>e t p. Some ()),
      parse_expression = (\<lambda>s. Inr (Some ())), compare_expressions = (\<lambda>a b t. True),
      str_expr = (\<lambda>e. ''2*x + 3'')\<rparr>"

definition example_request :: verify_request where
  "example_request =
     \<lparr>order_id = 123, problem = ''Find the derivative of f(x) = x^2 + 3x'',
      solution = ''2x + 3'', problem_type = DERIVATIVE\<rparr>"

definition unparsed_solution_lib :: "unit sympy_lib" where
  "unparsed_solution_lib =
     \<lparr>parse_problem = (\<lambda>p. Inr (Some ())), compute_solution = (\<lambda>e t p. Some ()),
      parse_expression = (\<lambda>s. Inr None), compare_expressions = (\<lambda>a b t. True),
      str_expr = (\<lambda>e. ''2*x + 3'')\<rparr>"

definition uncomputable_lib :: "unit sympy_lib" where
  "uncomputable_lib =
     \<lparr>parse_problem = (\<lambda>p. Inr (Some ())), compute_solution = (\<lambda>e t p. None),
      parse_expression = (\<lambda>s. Inr (Some ())), compare_expressions = (\<lambda>a b t. True),
      str_expr = (\<lambda>e. ''2*x + 3'')\<rparr>"

definition doubtful_reply :: gpt_reply where
  "doubtful_reply =
     Json \<lparr>j_is_correct = Some (PBool True), j_confidence = Some (PNum 0.2 ''0.2''),
           j_expected_solution = Some (PStr ''2*x + 3''), j_reason = Some (PStr ''looks right'')\<rparr>"

definition json_reply :: "bool \<Rightarrow> real \<Rightarrow> string \<Rightarrow> gpt_reply" where
  "json_reply correct conf conf_text =
     Json \<lparr>j_is_correct = Some (PBool correct), j_confidence = Some (PNum conf conf_text),
           j_expected_solution = None, j_reason = None\<rparr>"

definition null_verdict_reply :: gpt_reply where
  "null_verdict_reply =
     Json \<lparr>j_is_correct = Some PNone, j_confidence = Some (PNum 0.8 ''0.8''),
           j_expected_solution = Some (PStr ''2*x + 3''), j_reason = Some (PStr ''unsure'')\<rparr>"

text \<open>A validation that converts nothing.\<close>

definition strict :: validator where
  "strict = \<lparr>coerce_bool = (\<lambda>v. None), coerce_str = (\<lambda>v. None)\<rparr>"

definition example_challenge :: challenge_request where
  "example_challenge =
     \<lparr>c_order_id = 123, c_problem = ''Find the limit of sin(x)/x as x approaches 0'',
      submitted_solution = ''0'', c_problem_type = LIMIT,
      challenger_reason = ''The correct answer is 1, not 0''\<rparr>"

definition unparsed_problem_lib :: "unit sympy_lib" where
  "unparsed_problem_lib =
     \<lparr>parse_problem = (\<lambda>p. Inr None), compute_solution = (\<lambda>e t p. Some ()),
      parse_expression = (\<lambda>s. Inr (Some ())), compare_expressions = (\<lambda>a b t. True),
      str_expr = (\<lambda>e. ''2*x + 3'')\<rparr>"

section \<open>The catch-up ranges and sample ledgers\<close>

text \<open>
  The ranges \<open>(from_block, to_block)\<close> that the loop of \<^verbatim>\<open>_sync_historical_events\<close>
  hands to \<^verbatim>\<open>_process_block_range\<close>, in order, while the listener is running; and one
  pass of the loop body on such a range.
\<close>

function chunks :: "int \<Rightarrow> int \<Rightarrow> (int \<times> int) list" where
  "chunks current_block from_block =
     (if from_block < current_block then
        (let to_block = min (from_block + chunk_size) current_block
         in (from_block, to_block) # chunks current_block (to_block + 1))
      else [])"
  by pat_completeness auto
termination
  by (relation "measure (\<lambda>(current_block, from_block). nat (current_block - from_block))")
     (auto simp: chunk_size_def)

definition process_chunk :: "ledger \<Rightarrow> listener \<Rightarrow> int \<times> int \<Rightarrow> listener" where
  "process_chunk node st c =
     (process_block_range node st (fst c) (snd c))\<lparr>last_processed_block := snd c\<rparr>"

declare chunks.simps [simp del] sync_loop.simps [simp del]

text \<open>
  Sample stores, listeners, nodes and events. \<open>quiet_node\<close> answers every log request
  with no events; \<open>failing_node\<close> fails every log request.
\<close>

definition empty_database :: database where
  "empty_database = \<lparr>pool = True, orders = Map.empty, solutions = Map.empty, challenges = Map.empty\<rparr>"

definition fresh_listener :: listener where
  "fresh_listener =
     \<lparr>database = empty_database, running = True, last_processed_block = 0, logged = []\<rparr>"

definition quiet_node :: "int \<Rightarrow> ledger" where
  "quiet_node head =
     \<lparr>eth_block_number = Inr head, get_logs = (\<lambda>t a b. Inr []),
      get_block_timestamp = (\<lambda>n. Inr 1700000000)\<rparr>"

definition failing_node :: "int \<Rightarrow> ledger" where
  "failing_node head =
     \<lparr>eth_block_number = Inr head, get_logs = (\<lambda>t a b. Inl ''timeout''),
      get_block_timestamp = (\<lambda>n. Inr 1700000000)\<rparr>"

definition sample_order :: order where
  "sample_order =
     \<lparr>o_id = 7, issuer = ''0xA11CE'', problem_hash = [], o_problem_type = 0, time_tier = 1,
      status = 1, reward = ''5000000'', created_at = 1700000000, deadline = 1700000000,
      solver = Some ''0xB0B'', tx_hash = Some ''0x01'', block_number = Some 12\<rparr>"

definition sample_listener :: listener where
  "sample_listener =
     \<lparr>database = empty_database\<lparr>orders := [7 \<mapsto> sample_order]\<rparr>, running = True,
      last_processed_block = 12, logged = []\<rparr>"

definition stale_posted :: event where
  "stale_posted =
     \<lparr>orderId = 7, args = ProblemPostedArgs ''0xE7E'' 2 3 9000000, blockNumber = 40,
      transactionHash = ''0x02''\<rparr>"

definition committed_event :: event where
  "committed_event =
     \<lparr>orderId = 7, args = SolutionCommittedArgs ''0xB0B'' ''0xC0FFEE'', blockNumber = 41,
      transactionHash = ''0x03''\<rparr>"

section \<open>Observing a commit, and sample chains\<close>

text \<open>
  "The status is observed as COMMITTED within a budget of \<open>n\<close> re-polls": some read
  among the first \<open>n\<close> answers with status \<^verbatim>\<open>COMMITTED\<close>, every read before it having
  answered with another status.
\<close>

definition observed_committed :: "(nat \<Rightarrow> string + sdk_order) \<Rightarrow> nat \<Rightarrow> bool" where
  "observed_committed check n =
     (\<exists>i<n. (\<exists>ord. check i = Inr ord \<and> sdk_status ord = COMMITTED) \<and>
            (\<forall>j<i. \<exists>ord. check j = Inr ord \<and> sdk_status ord \<noteq> COMMITTED))"

text \<open>
  Sample chains for the bot at address \<^verbatim>\<open>0xb0b\<close>: a commit whose receipt fails but which
  lands before the second re-poll; a commit that never lands; an order with no time
  left; an order that another solver has accepted.
\<close>

definition late_commit_env :: chain where
  "late_commit_env =
     \<lparr>fresh_order = Inr \<lparr>sdk_status = ACCEPTED, time_remaining = 200, sdk_solver = Some ''0xB0B''\<rparr>,
      commit_solution = Inr False,
      check_order = (\<lambda>i. Inr \<lparr>sdk_status = (if i = 0 then ACCEPTED else COMMITTED),
                                time_remaining = 190, sdk_solver = Some ''0xB0B''\<rparr>),
      reveal_solution = Inr True\<rparr>"

text \<open>
  A commit whose receipt fails although the transaction has landed: the first read of
  the order after it already answers \<^verbatim>\<open>COMMITTED\<close>.
\<close>

definition landed_commit_env :: chain where
  "landed_commit_env =
     \<lparr>fresh_order = Inr \<lparr>sdk_status = ACCEPTED, time_remaining = 200, sdk_solver = Some ''0xB0B''\<rparr>,
      commit_solution = Inr False,
      check_order = (\<lambda>i. Inr \<lparr>sdk_status = COMMITTED, time_remaining = 190,
                                sdk_solver = Some ''0xB0B''\<rparr>),
      reveal_solution = Inr True\<rparr>"

definition lost_commit_env :: chain where
  "lost_commit_env =
     \<lparr>fresh_order = Inr \<lparr>sdk_status = ACCEPTED, time_remaining = 200, sdk_solver = Some ''0xB0B''\<rparr>,
      commit_solution = Inr False,
      check_order = (\<lambda>i. Inr \<lparr>sdk_status = ACCEPTED, time_remaining = 190,
                                sdk_solver = Some ''0xB0B''\<rparr>),
      reveal_solution = Inr True\<rparr>"

definition hurried_env :: chain where
  "hurried_env =
     \<lparr>fresh_order = Inr \<lparr>sdk_status = ACCEPTED, time_remaining = 0, sdk_solver = Some ''0xB0B''\<rparr>,
      commit_solution = Inr True,
      check_order = (\<lambda>i. Inr \<lparr>sdk_status = ACCEPTED, time_remaining = 0,
                                sdk_solver = Some ''0xB0B''\<rparr>),
      reveal_solution = Inr True\<rparr>"

definition taken_env :: chain where
  "taken_env =
     \<lparr>fresh_order = Inr \<lparr>sdk_status = ACCEPTED, time_remaining = 200, sdk_solver = Some ''0xE7E''\<rparr>,
      commit_solution = Inr True,
      check_order = (\<lambda>i. Inr \<lparr>sdk_status = ACCEPTED, time_remaining = 190,
                                sdk_solver = Some ''0xE7E''\<rparr>),
      reveal_solution = Inr True\<rparr>"

section \<open>Properties of the verifier service\<close>

subsection \<open>Helper facts\<close>

lemma validate_bool_simps [simp]:
  "validate_bool pyd (PBool b) = Some b"
  "validate_bool pyd PNone = None"
  by (simp_all add: validate_bool_def)

lemma validate_opt_str_simps [simp]:
  "validate_opt_str pyd PNone = Some None"
  "validate_opt_str pyd (PStr s) = Some (Some s)"
  "validate_opt_str pyd (opt_str a) = Some a"
  by (simp_all add: validate_opt_str_def opt_str_def split: option.splits)

lemma truthy_PBool [simp]: "truthy (PBool b) = b"
  by (simp add: truthy_def)

lemma py_eq_bool_PBool [simp]: "py_eq_bool b (PBool c) = (b = c)"
  by (simp add: py_eq_bool_def)

lemma gpt_judgment_simps [simp]:
  "g_is_correct (gpt_judgment h) = PBool (is_correct h)"
  "g_confidence (gpt_judgment h) = confidence h"
  "g_expected_solution (gpt_judgment h) = opt_str (expected_solution h)"
  "g_reason (gpt_judgment h) = opt_str (reason h)"
  by (simp_all add: gpt_judgment_def)

lemma gpt_evaluation_simps [simp]:
  "e_is_valid (gpt_evaluation ev) = PBool (is_valid ev)"
  "e_assessment (gpt_evaluation ev) = PStr (assessment ev)"
  by (simp_all add: gpt_evaluation_def)

lemma py_or_opt_str:
  "py_or a (opt_str b) = opt_str (case a of None \<Rightarrow> b | Some s \<Rightarrow> if s = [] then b else Some s)"
  by (simp add: py_or_def opt_str_def split: option.splits)

lemma VerifyResponse_declared:
  "VerifyResponse pyd oid (PBool b) c m (opt_str e) (opt_str r) =
     Inr \<lparr>vr_order_id = oid, vr_is_correct = b, vr_confidence = c, vr_method = m,
          vr_expected_solution = e, vr_reason = r\<rparr>"
  "VerifyResponse pyd oid (PBool b) c m (opt_str e) (PStr s) =
     Inr \<lparr>vr_order_id = oid, vr_is_correct = b, vr_confidence = c, vr_method = m,
          vr_expected_solution = e, vr_reason = Some s\<rparr>"
  by (simp_all add: VerifyResponse_def)

lemma VerifyResponse_confidence:
  "VerifyResponse pyd oid v c m e r = Inr resp \<Longrightarrow> vr_confidence resp = c"
  by (auto simp: VerifyResponse_def split: option.splits)

lemma ChallengeResponse_declared:
  "ChallengeResponse pyd oid w c (opt_str e) parts =
     Inr \<lparr>cr_order_id = oid, challenger_wins = w, cr_confidence = c, correct_solution = e,
          analysis = parts\<rparr>"
  by (simp add: ChallengeResponse_def)

lemma ChallengeResponse_verdict:
  "ChallengeResponse pyd oid w c e parts = Inr resp \<Longrightarrow>
   challenger_wins resp = w \<and> cr_confidence resp = c"
  by (auto simp: ChallengeResponse_def split: option.splits)


lemma determine_outcome_range:
  assumes "0 \<le> confidence a" "confidence a \<le> 1" "0 \<le> g_confidence h" "g_confidence h \<le> 1"
  shows "0 \<le> fst (snd (determine_outcome a h ev)) \<and> fst (snd (determine_outcome a h ev)) \<le> 1"
  using assms by (simp add: determine_outcome_def)

lemma combine_results_range:
  assumes "0 \<le> confidence a" "confidence a \<le> 1" "0 \<le> g_confidence h" "g_confidence h \<le> 1"
    and "combine_results pyd oid a h = Inr resp"
  shows "0 \<le> vr_confidence resp \<and> vr_confidence resp \<le> 1"
proof -
  have "vr_confidence resp \<in>
          {min 1.0 ((confidence a + g_confidence h) / 1.5), confidence a * 0.8,
           g_confidence h * 0.8, g_confidence h}"
    using assms(5)
    by (auto simp: combine_results_def split: if_splits dest!: VerifyResponse_confidence)
  with assms(1-4) show ?thesis by auto
qed

lemma GPTSolver_verify_range:
  "0 \<le> g_confidence (GPTSolver_verify reply) \<and> g_confidence (GPTSolver_verify reply) \<le> 1"
  by (simp add: GPTSolver_verify_def gpt_error_def Let_def split: gpt_reply.splits option.splits)

lemma SympySolver_verify_range:
  "0 \<le> confidence (SympySolver_verify lib p s t) \<and> confidence (SympySolver_verify lib p s t) \<le> 1"
  by (simp add: SympySolver_verify_def verification_error_def Let_def split: sum.splits option.splits)



lemma declared_types_fields:
  assumes "declared_types g"
  shows "\<exists>b e r. g_is_correct g = PBool b \<and> g_expected_solution g = opt_str e \<and>
                 g_reason g = opt_str r"
proof -
  from assms obtain b where b: "g_is_correct g = PBool b"
    by (cases "g_is_correct g") (simp_all add: declared_types_def)
  from assms have "\<exists>e. g_expected_solution g = opt_str e"
    by (cases "g_expected_solution g")
       (auto simp: declared_types_def opt_str_def intro: exI [of _ None] exI [of _ "Some _"])
  moreover from assms have "\<exists>r. g_reason g = opt_str r"
    by (cases "g_reason g")
       (auto simp: declared_types_def opt_str_def intro: exI [of _ None] exI [of _ "Some _"])
  ultimately show ?thesis using b by blast
qed

lemma declared_types_gpt_judgment: "declared_types (gpt_judgment h)"
  by (simp add: declared_types_def gpt_judgment_def opt_str_def split: option.splits)

lemma combine_results_declared:
  assumes "declared_types h"
  shows "\<exists>resp. combine_results pyd oid a h = Inr resp"
proof -
  from declared_types_fields [OF assms] obtain b e r where
    "g_is_correct h = PBool b" "g_expected_solution h = opt_str e" "g_reason h = opt_str r"
    by blast
  then show ?thesis
    by (simp add: combine_results_def py_or_opt_str VerifyResponse_declared)
qed

lemma challenge_verdict_declared:
  assumes "declared_types h"
  shows "\<exists>resp. challenge_verdict pyd oid a h ev = Inr resp"
proof -
  from declared_types_fields [OF assms] obtain e where "g_expected_solution h = opt_str e"
    by blast
  then show ?thesis
    by (simp add: challenge_verdict_def py_or_opt_str ChallengeResponse_declared
          split: prod.splits)
qed

lemma GPTSolver_verify_NonJson_declared: "declared_types (GPTSolver_verify (NonJson response))"
  by (simp add: GPTSolver_verify_def declared_types_def Let_def)

lemma verify_solution_declared:
  assumes "declared_types (GPTSolver_verify reply)"
  shows "\<exists>resp. snd (verify_solution pyd (sympy_verifier lib) (gpt_verifier reply) request)
                  = Inr resp"
proof (cases "confidence (SympySolver_verify lib (problem request) (solution request)
                           (problem_type request)) \<ge> 0.9")
  case True
  then show ?thesis
    by (simp add: verify_solution_def sympy_verifier_def verification_failed_def
          VerifyResponse_declared)
next
  case False
  from combine_results_declared [OF assms] obtain resp where
    "combine_results pyd (order_id request)
       (SympySolver_verify lib (problem request) (solution request) (problem_type request))
       (GPTSolver_verify reply) = Inr resp"
    by blast
  with False show ?thesis
    by (simp add: verify_solution_def sympy_verifier_def gpt_verifier_def verification_failed_def)
qed

lemma process_challenge_declared:
  assumes "declared_types (GPTSolver_verify reply)"
  shows "\<exists>resp. snd (process_challenge pyd (sympy_verifier lib) (gpt_verifier reply)
                       (gpt_evaluator ereply) request) = Inr resp"
proof -
  from challenge_verdict_declared [OF assms] obtain resp where
    "challenge_verdict pyd (c_order_id request)
       (SympySolver_verify lib (c_problem request) (submitted_solution request)
          (c_problem_type request))
       (GPTSolver_verify reply) (GPTSolver_evaluate_challenge ereply) = Inr resp"
    by blast
  then show ?thesis
    by (simp add: process_challenge_def sympy_verifier_def gpt_verifier_def gpt_evaluator_def
          challenge_failed_def)
qed

lemma sympy_failure_confidence:
  assumes "sympy_failure lib p s t = Some c"
  shows "confidence (SympySolver_verify lib p s t) = c \<and> \<not> is_correct (SympySolver_verify lib p s t)"
  using assms
  by (auto simp: sympy_failure_def SympySolver_verify_def verification_error_def
        split: sum.splits option.splits)

lemma sympy_success_confidence:
  assumes "sympy_failure lib p s t = None"
  shows "confidence (SympySolver_verify lib p s t) \<ge> 0.9"
  using assms
  by (auto simp: sympy_failure_def SympySolver_verify_def Let_def
        split: sum.splits option.splits)

lemma gpt_failure_confidence:
  assumes "gpt_failure reply = Some d"
  shows "g_confidence (GPTSolver_verify reply) = d \<and> declared_types (GPTSolver_verify reply)"
  using assms
  by (auto simp: gpt_failure_def GPTSolver_verify_def gpt_error_def declared_types_def Let_def
        split: gpt_reply.splits option.splits if_splits)

lemma gpt_failure_verdict:
  assumes "gpt_failure reply = Some 0"
  shows "g_is_correct (GPTSolver_verify reply) = PBool False"
  using assms
  by (auto simp: gpt_failure_def GPTSolver_verify_def gpt_error_def
        split: gpt_reply.splits option.splits if_splits)

lemma VerifyResponse_fields:
  assumes "VerifyResponse pyd oid (PBool b) c m (opt_str e) (opt_str r) = Inr resp"
  shows "vr_is_correct resp = b \<and> vr_confidence resp = c \<and> vr_method resp = m \<and>
         vr_expected_solution resp = e \<and> vr_reason resp = r"
  using assms by (auto simp: VerifyResponse_declared)

subsection \<open>Challenge resolution\<close>



subsection \<open>Verification consensus\<close>

text \<open>
  Claim C2. When the SymPy (Analytic) judgment has confidence at least 0.9, the response
  of \<^verbatim>\<open>verify_solution\<close> is that judgment unchanged (correctness, confidence, expected
  solution, reason) under the method tag \<^verbatim>\<open>"sympy"\<close>, and the only verifier call made
  is the one to SymPy: the GPT (Heuristic) verifier is not consulted, whatever it is.
\<close>

theorem analytic_verbatim:
  assumes "sympy_solver (problem request) (solution request) (problem_type request) = Inr a"
    and "confidence a \<ge> 0.9"
  shows "verify_solution pyd sympy_solver gpt_solver request =
           ([SympyVerify],
            Inr \<lparr>vr_order_id = order_id request, vr_is_correct = is_correct a,
                 vr_confidence = confidence a, vr_method = ''sympy'',
                 vr_expected_solution = expected_solution a, vr_reason = reason a\<rparr>)"
  using assms
  by (simp add: verify_solution_def verification_failed_def VerifyResponse_declared)

text \<open>
  Scenario A of the specification: SymPy says correct at 0.95, GPT would say correct at
  0.3; the response is correct, 0.95, by SymPy alone.
\<close>

theorem analytic_verbatim_witness:
  "verify_solution strict (sympy_verifier matching_lib)
     (gpt_verifier (json_reply True 0.3 ''0.3'')) example_request =
   ([SympyVerify],
    Inr \<lparr>vr_order_id = 123, vr_is_correct = True, vr_confidence = 0.95, vr_method = ''sympy'',
         vr_expected_solution = Some ''2*x + 3'', vr_reason = Some ''Solutions match''\<rparr>)"
  using analytic_verbatim
    [of "sympy_verifier matching_lib" example_request
        "SympySolver_verify matching_lib (problem example_request) (solution example_request)
           (problem_type example_request)"
        strict "gpt_verifier (json_reply True 0.3 ''0.3'')"]
  by (simp add: sympy_verifier_def SympySolver_verify_def matching_lib_def example_request_def)



text \<open>
  Claim C4. If every judgment that the two verifiers return carries a confidence in
  \<open>[0, 1]\<close>, then the confidence in the response of \<^verbatim>\<open>verify_solution\<close> and in the
  response of \<^verbatim>\<open>process_challenge\<close> lies in \<open>[0, 1]\<close>; and \<^verbatim>\<open>GPTSolver.verify\<close> itself
  always reports a confidence in \<open>[0, 1]\<close>, whatever the model replies.
\<close>

theorem confidence_in_unit_interval:
  assumes sv: "\<And>p s t r. sympy_solver p s t = Inr r \<Longrightarrow> 0 \<le> confidence r \<and> confidence r \<le> 1"
    and gv: "\<And>p s t r. gpt_solver p s t = Inr r \<Longrightarrow> 0 \<le> g_confidence r \<and> g_confidence r \<le> 1"
  shows "(\<forall>resp. snd (verify_solution pyd sympy_solver gpt_solver vrequest) = Inr resp \<longrightarrow>
            0 \<le> vr_confidence resp \<and> vr_confidence resp \<le> 1) \<and>
         (\<forall>resp. snd (process_challenge pyd sympy_solver gpt_solver evaluator crequest) = Inr resp \<longrightarrow>
            0 \<le> cr_confidence resp \<and> cr_confidence resp \<le> 1) \<and>
         0 \<le> g_confidence (GPTSolver_verify reply) \<and> g_confidence (GPTSolver_verify reply) \<le> 1"
proof (intro conjI allI impI)
  fix resp
  assume r: "snd (verify_solution pyd sympy_solver gpt_solver vrequest) = Inr resp"
  show "0 \<le> vr_confidence resp" "vr_confidence resp \<le> 1"
  proof -
    from r obtain a where
      a: "sympy_solver (problem vrequest) (solution vrequest) (problem_type vrequest) = Inr a"
      by (auto simp: verify_solution_def verification_failed_def split: sum.splits)
    have "0 \<le> vr_confidence resp \<and> vr_confidence resp \<le> 1"
    proof (cases "confidence a \<ge> 0.9")
      case True
      with r a have "vr_confidence resp = confidence a"
        by (auto simp: verify_solution_def verification_failed_def VerifyResponse_declared)
      with sv [OF a] show ?thesis by simp
    next
      case False
      with r a obtain h where
        h: "gpt_solver (problem vrequest) (solution vrequest) (problem_type vrequest) = Inr h"
        and c: "combine_results pyd (order_id vrequest) a h = Inr resp"
        by (auto simp: verify_solution_def verification_failed_def split: sum.splits)
      from combine_results_range [OF _ _ _ _ c] sv [OF a] gv [OF h] show ?thesis by simp
    qed
    then show "0 \<le> vr_confidence resp" "vr_confidence resp \<le> 1" by simp_all
  qed
next
  fix resp
  assume r: "snd (process_challenge pyd sympy_solver gpt_solver evaluator crequest) = Inr resp"
  then obtain a h ev where
    a: "sympy_solver (c_problem crequest) (submitted_solution crequest) (c_problem_type crequest) = Inr a"
    and h: "gpt_solver (c_problem crequest) (submitted_solution crequest) (c_problem_type crequest) = Inr h"
    and resp: "challenge_verdict pyd (c_order_id crequest) a h ev = Inr resp"
    by (auto simp: process_challenge_def challenge_failed_def split: sum.splits)
  have "cr_confidence resp = fst (snd (determine_outcome a h ev))"
    using resp
    by (auto simp: challenge_verdict_def split: prod.splits dest!: ChallengeResponse_verdict)
  with determine_outcome_range [of a h ev] sv [OF a] gv [OF h]
  show "0 \<le> cr_confidence resp" "cr_confidence resp \<le> 1" by simp_all
qed (simp_all add: GPTSolver_verify_range)

theorem confidence_in_unit_interval_witness:
  "(\<exists>resp. snd (verify_solution strict (sympy_verifier unparsed_solution_lib)
                   (gpt_verifier (NonJson ''The solution is Correct.'')) example_request) = Inr resp \<and>
            0 \<le> vr_confidence resp \<and> vr_confidence resp \<le> 1) \<and>
   (\<exists>resp. snd (process_challenge strict (sympy_verifier unparsed_solution_lib)
                   (gpt_verifier (NonJson ''The solution is Correct.''))
                   (gpt_evaluator EvalUnavailable) example_challenge) = Inr resp \<and>
            0 \<le> cr_confidence resp \<and> cr_confidence resp \<le> 1)"
proof -
  have sv: "\<And>p s t r. sympy_verifier unparsed_solution_lib p s t = Inr r
              \<Longrightarrow> 0 \<le> confidence r \<and> confidence r \<le> 1"
    using SympySolver_verify_range by (auto simp: sympy_verifier_def)
  have gv: "\<And>p s t r. gpt_verifier (NonJson ''The solution is Correct.'') p s t = Inr r
              \<Longrightarrow> 0 \<le> g_confidence r \<and> g_confidence r \<le> 1"
    using GPTSolver_verify_range by (auto simp: gpt_verifier_def)
  have v: "\<exists>resp. snd (verify_solution strict (sympy_verifier unparsed_solution_lib)
                   (gpt_verifier (NonJson ''The solution is Correct.'')) example_request) = Inr resp"
    by (rule verify_solution_declared [OF GPTSolver_verify_NonJson_declared])
  have c: "\<exists>resp. snd (process_challenge strict (sympy_verifier unparsed_solution_lib)
                   (gpt_verifier (NonJson ''The solution is Correct.''))
                   (gpt_evaluator EvalUnavailable) example_challenge) = Inr resp"
    by (rule process_challenge_declared [OF GPTSolver_verify_NonJson_declared])
  have "(\<forall>resp. snd (verify_solution strict (sympy_verifier unparsed_solution_lib)
                   (gpt_verifier (NonJson ''The solution is Correct.'')) example_request) = Inr resp \<longrightarrow>
            0 \<le> vr_confidence resp \<and> vr_confidence resp \<le> 1) \<and>
        (\<forall>resp. snd (process_challenge strict (sympy_verifier unparsed_solution_lib)
                   (gpt_verifier (NonJson ''The solution is Correct.''))
                   (gpt_evaluator EvalUnavailable) example_challenge) = Inr resp \<longrightarrow>
            0 \<le> cr_confidence resp \<and> cr_confidence resp \<le> 1) \<and>
        0 \<le> g_confidence (GPTSolver_verify Unavailable) \<and>
        g_confidence (GPTSolver_verify Unavailable) \<le> 1"
    by (rule confidence_in_unit_interval) (fact sv, fact gv)
  with v c show ?thesis by blast
qed

subsection \<open>A verifier that fails\<close>

text \<open>
  Claim C9, as stated, fails: a failed verifier does not always report confidence 0.
  When SymPy parses the problem but cannot compute the expected solution, its judgment
  is "incorrect" at confidence 0.3; against a GPT judgment of "correct" at 0.2 both
  confidences are positive, so the merge takes the failed SymPy judgment at
  \<open>0.3 * 0.8\<close> and the verdict does not come from the remaining verifier.
\<close>

theorem failed_verifier_confidence_counterexample:
  "compute_solution uncomputable_lib () DERIVATIVE (problem example_request) = None \<and>
   confidence (SympySolver_verify uncomputable_lib (problem example_request)
                 (solution example_request) DERIVATIVE) = 0.3 \<and>
   snd (verify_solution strict (sympy_verifier uncomputable_lib) (gpt_verifier doubtful_reply)
          example_request) =
     Inr \<lparr>vr_order_id = 123, vr_is_correct = False, vr_confidence = 0.24,
          vr_method = ''sympy (disputed)'', vr_expected_solution = None,
          vr_reason = Some ''SymPy result, but GPT disagrees''\<rparr>"
  by (simp add: uncomputable_lib_def SympySolver_verify_def example_request_def
        verify_solution_def sympy_verifier_def gpt_verifier_def doubtful_reply_def
        GPTSolver_verify_def as_number_def combine_results_def verification_failed_def
        VerifyResponse_def opt_str_def)

text \<open>
  Nor is a verdict produced whatever the remaining verifier replies. \<^verbatim>\<open>GPTSolver.verify\<close>
  passes the fields of the model's JSON on unchecked; with a problem that SymPy cannot
  parse and a GPT reply whose \<^verbatim>\<open>is_correct\<close> is \<^verbatim>\<open>null\<close>, the response model refuses the
  verdict and the route answers HTTP 500, under every validation.
\<close>

lemma null_verdict_aborts:
  "verify_solution pyd (sympy_verifier unparsed_problem_lib) (gpt_verifier null_verdict_reply)
     example_request =
   ([SympyVerify, GptVerify], Inl (HTTPException 500 ''Verification failed: ValidationError''))"
  by (simp add: unparsed_problem_lib_def SympySolver_verify_def example_request_def
        verify_solution_def sympy_verifier_def gpt_verifier_def null_verdict_reply_def
        GPTSolver_verify_def as_number_def combine_results_def verification_failed_def
        VerifyResponse_def)

text \<open>
  Claim C9, amended. A verifier that fails reports a fixed reduced confidence set by
  the failure mode. SymPy, always judging "incorrect": 0 for a problem it cannot parse,
  0.3 for an expected solution it cannot compute, 0.5 for a submitted solution it
  cannot parse, 0.1 for an escaped exception. GPT: 0 when the API is missing, the call
  fails or the confidence is not a number, 0.6 for a reply that is not JSON; such a
  failed GPT judgment always has fields of the declared types. When SymPy does not
  fail, the response is the SymPy judgment unchanged and GPT is not consulted at all.
  Whenever the GPT judgment has fields of the declared types (so always when GPT is
  the verifier that failed), \<^verbatim>\<open>verify_solution\<close> answers with a verdict: when the failed
  SymPy judgment has confidence 0, that verdict is the GPT judgment unchanged, tagged
  \<^verbatim>\<open>"gpt"\<close>; when SymPy failed and GPT failed with confidence 0, it is the failed GPT
  judgment ("incorrect", confidence 0, tagged \<^verbatim>\<open>"gpt"\<close>, GPT's reason) and the SymPy
  judgment is discarded.
\<close>

theorem failed_verifier_tolerated:
  "(sympy_failure lib (problem request) (solution request) (problem_type request) = Some c \<longrightarrow>
      confidence (SympySolver_verify lib (problem request) (solution request)
                    (problem_type request)) = c \<and>
      \<not> is_correct (SympySolver_verify lib (problem request) (solution request)
                      (problem_type request))) \<and>
   (gpt_failure reply = Some d \<longrightarrow>
      g_confidence (GPTSolver_verify reply) = d \<and> declared_types (GPTSolver_verify reply)) \<and>
   (sympy_failure lib (problem request) (solution request) (problem_type request) = None \<longrightarrow>
      verify_solution pyd (sympy_verifier lib) (gpt_verifier reply) request =
        ([SympyVerify],
         Inr \<lparr>vr_order_id = order_id request,
              vr_is_correct = is_correct (SympySolver_verify lib (problem request)
                                (solution request) (problem_type request)),
              vr_confidence = confidence (SympySolver_verify lib (problem request)
                                (solution request) (problem_type request)),
              vr_method = ''sympy'',
              vr_expected_solution = expected_solution (SympySolver_verify lib (problem request)
                                (solution request) (problem_type request)),
              vr_reason = reason (SympySolver_verify lib (problem request)
                                (solution request) (problem_type request))\<rparr>)) \<and>
   (declared_types (GPTSolver_verify reply) \<longrightarrow>
      (\<exists>resp. snd (verify_solution pyd (sympy_verifier lib) (gpt_verifier reply) request)
                 = Inr resp \<and>
         (sympy_failure lib (problem request) (solution request) (problem_type request) = Some 0
            \<longrightarrow>
            PBool (vr_is_correct resp) = g_is_correct (GPTSolver_verify reply) \<and>
            vr_confidence resp = g_confidence (GPTSolver_verify reply) \<and>
            opt_str (vr_expected_solution resp) = g_expected_solution (GPTSolver_verify reply) \<and>
            opt_str (vr_reason resp) = g_reason (GPTSolver_verify reply) \<and>
            vr_method resp = ''gpt'') \<and>
         (sympy_failure lib (problem request) (solution request) (problem_type request) \<noteq> None \<and>
          gpt_failure reply = Some 0 \<longrightarrow>
            \<not> vr_is_correct resp \<and> vr_confidence resp = 0 \<and> vr_method resp = ''gpt'' \<and>
            opt_str (vr_reason resp) = g_reason (GPTSolver_verify reply))))"
proof (intro conjI impI)
  let ?s = "SympySolver_verify lib (problem request) (solution request) (problem_type request)"
  let ?g = "GPTSolver_verify reply"
  let ?f = "sympy_failure lib (problem request) (solution request) (problem_type request)"
  {
    assume "?f = Some c"
    then show "confidence ?s = c" "\<not> is_correct ?s"
      using sympy_failure_confidence by blast+
  next
    assume "gpt_failure reply = Some d"
    then show "g_confidence ?g = d" "declared_types ?g"
      using gpt_failure_confidence by blast+
  next
    assume "?f = None"
    from sympy_success_confidence [OF this]
    show "verify_solution pyd (sympy_verifier lib) (gpt_verifier reply) request =
            ([SympyVerify],
             Inr \<lparr>vr_order_id = order_id request, vr_is_correct = is_correct ?s,
                  vr_confidence = confidence ?s, vr_method = ''sympy'',
                  vr_expected_solution = expected_solution ?s, vr_reason = reason ?s\<rparr>)"
      by (simp add: verify_solution_def sympy_verifier_def verification_failed_def
            VerifyResponse_declared)
  next
    assume dt: "declared_types ?g"
    from declared_types_fields [OF dt] obtain b e r where
      g: "g_is_correct ?g = PBool b" "g_expected_solution ?g = opt_str e" "g_reason ?g = opt_str r"
      by blast
    from verify_solution_declared [OF dt, of pyd lib request] obtain resp where
      resp: "snd (verify_solution pyd (sympy_verifier lib) (gpt_verifier reply) request) = Inr resp"
      by blast
    have only_gpt: "vr_is_correct resp = b \<and> vr_confidence resp = g_confidence ?g \<and>
                    vr_method resp = ''gpt'' \<and> vr_expected_solution resp = e \<and>
                    vr_reason resp = r"
      if low: "confidence ?s < 0.9" and zero: "confidence ?s = 0 \<or> g_confidence ?g = 0"
    proof -
      from low zero resp have
        "VerifyResponse pyd (order_id request) (PBool b) (g_confidence ?g) ''gpt''
           (opt_str e) (opt_str r) = Inr resp"
        by (auto simp: verify_solution_def sympy_verifier_def gpt_verifier_def
              combine_results_def verification_failed_def g split: sum.splits)
      from VerifyResponse_fields [OF this] show ?thesis .
    qed
    have first: "?f = Some 0 \<longrightarrow>
            PBool (vr_is_correct resp) = g_is_correct ?g \<and>
            vr_confidence resp = g_confidence ?g \<and>
            opt_str (vr_expected_solution resp) = g_expected_solution ?g \<and>
            opt_str (vr_reason resp) = g_reason ?g \<and>
            vr_method resp = ''gpt''"
    proof
      assume "?f = Some 0"
      from sympy_failure_confidence [OF this] have "confidence ?s = 0" by simp
      with only_gpt g show "PBool (vr_is_correct resp) = g_is_correct ?g \<and>
            vr_confidence resp = g_confidence ?g \<and>
            opt_str (vr_expected_solution resp) = g_expected_solution ?g \<and>
            opt_str (vr_reason resp) = g_reason ?g \<and>
            vr_method resp = ''gpt''"
        by simp
    qed
    have second: "?f \<noteq> None \<and> gpt_failure reply = Some 0 \<longrightarrow>
            \<not> vr_is_correct resp \<and> vr_confidence resp = 0 \<and> vr_method resp = ''gpt'' \<and>
            opt_str (vr_reason resp) = g_reason ?g"
    proof
      assume a: "?f \<noteq> None \<and> gpt_failure reply = Some 0"
      then obtain c' where "?f = Some c'" by auto
      then have "confidence ?s < 0.9"
        using sympy_failure_confidence [of lib "problem request" "solution request"
                "problem_type request" c']
        by (auto simp: sympy_failure_def split: sum.splits option.splits)
      moreover from a gpt_failure_confidence have "g_confidence ?g = 0" by blast
      moreover from a gpt_failure_verdict have "g_is_correct ?g = PBool False" by blast
      ultimately show "\<not> vr_is_correct resp \<and> vr_confidence resp = 0 \<and>
            vr_method resp = ''gpt'' \<and> opt_str (vr_reason resp) = g_reason ?g"
        using only_gpt g by simp
    qed
    from resp first second
    show "\<exists>resp. snd (verify_solution pyd (sympy_verifier lib) (gpt_verifier reply) request)
                 = Inr resp \<and>
         (?f = Some 0 \<longrightarrow>
            PBool (vr_is_correct resp) = g_is_correct ?g \<and>
            vr_confidence resp = g_confidence ?g \<and>
            opt_str (vr_expected_solution resp) = g_expected_solution ?g \<and>
            opt_str (vr_reason resp) = g_reason ?g \<and>
            vr_method resp = ''gpt'') \<and>
         (?f \<noteq> None \<and> gpt_failure reply = Some 0 \<longrightarrow>
            \<not> vr_is_correct resp \<and> vr_confidence resp = 0 \<and> vr_method resp = ''gpt'' \<and>
            opt_str (vr_reason resp) = g_reason ?g)"
      by blast
  }
qed

theorem failed_verifier_tolerated_witness:
  "confidence (SympySolver_verify uncomputable_lib (problem example_request)
                 (solution example_request) (problem_type example_request)) = 0.3 \<and>
   g_confidence (GPTSolver_verify (NonJson ''I cannot tell.'')) = 0.6 \<and>
   fst (verify_solution strict (sympy_verifier matching_lib) (gpt_verifier Unavailable)
          example_request) = [SympyVerify] \<and>
   (\<exists>resp. snd (verify_solution strict (sympy_verifier unparsed_problem_lib)
                  (gpt_verifier doubtful_reply) example_request) = Inr resp \<and>
           vr_is_correct resp \<and> vr_confidence resp = 0.2 \<and> vr_method resp = ''gpt'') \<and>
   (\<exists>resp. snd (verify_solution strict (sympy_verifier unparsed_solution_lib)
                  (gpt_verifier Unavailable) example_request) = Inr resp \<and>
           \<not> vr_is_correct resp \<and> vr_confidence resp = 0 \<and> vr_method resp = ''gpt'')"
proof -
  have f1: "sympy_failure uncomputable_lib (problem example_request) (solution example_request)
              (problem_type example_request) = Some 0.3"
    by (simp add: sympy_failure_def uncomputable_lib_def)
  have f2: "gpt_failure (NonJson ''I cannot tell.'') = Some 0.6"
    by (simp add: gpt_failure_def)
  have f3: "sympy_failure unparsed_problem_lib (problem example_request) (solution example_request)
              (problem_type example_request) = Some 0"
    by (simp add: sympy_failure_def unparsed_problem_lib_def)
  have f4: "sympy_failure matching_lib (problem example_request) (solution example_request)
              (problem_type example_request) = None"
    by (simp add: sympy_failure_def matching_lib_def)
  have f5: "sympy_failure unparsed_solution_lib (problem example_request) (solution example_request)
              (problem_type example_request) = Some 0.5"
    by (simp add: sympy_failure_def unparsed_solution_lib_def)
  have f6: "gpt_failure Unavailable = Some 0"
    by (simp add: gpt_failure_def)
  have g: "g_is_correct (GPTSolver_verify doubtful_reply) = PBool True \<and>
           g_confidence (GPTSolver_verify doubtful_reply) = 0.2 \<and>
           declared_types (GPTSolver_verify doubtful_reply)"
    by (simp add: GPTSolver_verify_def doubtful_reply_def as_number_def declared_types_def)
  have u: "declared_types (GPTSolver_verify Unavailable)"
    by (simp add: GPTSolver_verify_def gpt_error_def declared_types_def)
  from f1 f2 failed_verifier_tolerated
          [where lib = uncomputable_lib and request = example_request and c = "0.3"
             and reply = "NonJson ''I cannot tell.''" and d = "0.6" and pyd = strict]
  have a: "confidence (SympySolver_verify uncomputable_lib (problem example_request)
                 (solution example_request) (problem_type example_request)) = 0.3 \<and>
           g_confidence (GPTSolver_verify (NonJson ''I cannot tell.'')) = 0.6"
    by blast
  from f4 failed_verifier_tolerated
          [where lib = matching_lib and request = example_request and c = 0
             and reply = Unavailable and d = 0 and pyd = strict]
  have b: "fst (verify_solution strict (sympy_verifier matching_lib) (gpt_verifier Unavailable)
          example_request) = [SympyVerify]"
    by simp
  from f3 g failed_verifier_tolerated
          [where lib = unparsed_problem_lib and request = example_request and c = 0
             and reply = doubtful_reply and d = 0 and pyd = strict]
  have c: "\<exists>resp. snd (verify_solution strict (sympy_verifier unparsed_problem_lib)
                  (gpt_verifier doubtful_reply) example_request) = Inr resp \<and>
           vr_is_correct resp \<and> vr_confidence resp = 0.2 \<and> vr_method resp = ''gpt''"
    by auto
  from f5 f6 u failed_verifier_tolerated
          [where lib = unparsed_solution_lib and request = example_request and c = "0.5"
             and reply = Unavailable and d = 0 and pyd = strict]
  have d: "\<exists>resp. snd (verify_solution strict (sympy_verifier unparsed_solution_lib)
                  (gpt_verifier Unavailable) example_request) = Inr resp \<and>
           \<not> vr_is_correct resp \<and> vr_confidence resp = 0 \<and> vr_method resp = ''gpt''"
    by auto
  from a b c d show ?thesis by blast
qed
section \<open>Properties of the indexer\<close>

subsection \<open>Replaying an event\<close>

lemma database_handle_event:
  "database (handle_event node st (etype, ev)) =
     (case get_block_timestamp node (blockNumber ev) of
        Inl e \<Rightarrow> database st
      | Inr ts \<Rightarrow> (case apply_event (database st) etype ev ts of
                    Inl e \<Rightarrow> database st | Inr db' \<Rightarrow> db'))"
  by (simp add: handle_event_def split: sum.splits)

lemma insert_order_idem: "insert_order (insert_order db ord) ord = insert_order db ord"
  by (auto simp: insert_order_def split: option.splits)

lemma update_order_status_idem:
  "update_order_status (update_order_status db oid s slv) oid s slv = update_order_status db oid s slv"
  by (auto simp: update_order_status_def split: option.splits)

lemma handle_problem_posted_idem:
  "handle_problem_posted db ev ts txh = Inr db' \<Longrightarrow> handle_problem_posted db' ev ts txh = Inr db'"
  by (auto simp: handle_problem_posted_def insert_order_idem split: event_args.splits)

lemma handle_order_accepted_idem:
  "handle_order_accepted db ev ts txh = Inr db' \<Longrightarrow> handle_order_accepted db' ev ts txh = Inr db'"
  by (auto simp: handle_order_accepted_def update_order_status_idem split: event_args.splits)

lemma solutions_update_order_status [simp]:
  "solutions (update_order_status db oid s slv) = solutions db"
  "challenges (update_order_status db oid s slv) = challenges db"
  "pool (update_order_status db oid s slv) = pool db"
  by (auto simp: update_order_status_def split: option.splits)

lemma orders_update_order_status_None [simp]:
  "(orders (update_order_status db oid s slv) k = None) = (orders db k = None)"
  by (auto simp: update_order_status_def split: option.splits)

lemma insert_solution_row:
  assumes "insert_solution db sol = Inr db1" and "pool db"
  shows "\<exists>r. solutions db1 (s_order_id sol) = Some r \<and> s_solution r = s_solution sol \<and>
             salt r = salt sol \<and> reveal_time r = reveal_time sol \<and>
             is_revealed r = is_revealed sol"
proof (cases "solutions db (s_order_id sol)")
  case None
  with assms show ?thesis
    by (cases "orders db (s_order_id sol) = None") (auto simp: insert_solution_def)
next
  case (Some old)
  with assms show ?thesis by (auto simp: insert_solution_def)
qed

lemma insert_solution_pool:
  assumes "insert_solution db sol = Inr db1"
  shows "pool db1 = pool db"
proof (cases "pool db")
  case False
  with assms show ?thesis by (simp add: insert_solution_def)
next
  case True
  show ?thesis
  proof (cases "solutions db (s_order_id sol)")
    case None
    with assms True show ?thesis
      by (cases "orders db (s_order_id sol) = None") (auto simp: insert_solution_def)
  next
    case (Some old)
    with assms True show ?thesis by (auto simp: insert_solution_def)
  qed
qed

lemma insert_solution_no_pool: "\<not> pool db \<Longrightarrow> insert_solution db sol = Inr db"
  by (simp add: insert_solution_def)

lemma update_order_status_no_pool: "\<not> pool db \<Longrightarrow> update_order_status db oid s slv = db"
  by (simp add: update_order_status_def)

lemma insert_solution_same:
  assumes "solutions db (s_order_id sol) = Some r"
    and "s_solution r = s_solution sol" "salt r = salt sol"
        "reveal_time r = reveal_time sol" "is_revealed r = is_revealed sol"
  shows "insert_solution db sol = Inr db"
proof (cases "pool db")
  case False
  then show ?thesis by (simp add: insert_solution_def)
next
  case True
  have "r\<lparr>s_solution := s_solution sol, salt := salt sol, reveal_time := reveal_time sol,
           is_revealed := is_revealed sol\<rparr> = r"
    using assms(2-5) by simp
  moreover have "(solutions db)(s_order_id sol \<mapsto> r) = solutions db"
    using assms(1) by (simp add: fun_upd_idem)
  ultimately show ?thesis
    using True assms(1) by (simp add: insert_solution_def)
qed

lemma handle_solution_committed_idem:
  assumes "handle_solution_committed db ev ts txh = Inr db'"
  shows "handle_solution_committed db' ev ts txh = Inr db'"
proof (cases "args ev")
  case (SolutionCommittedArgs slv chash)
  define sol where "sol = \<lparr>s_order_id = orderId ev, s_solver = slv, commit_hash = chash,
                   s_solution = None, salt = None, commit_time = Some ts,
                   reveal_time = None, is_revealed = False, s_tx_hash = Some txh\<rparr>"
  from assms SolutionCommittedArgs obtain db1 where
    ins: "insert_solution db sol = Inr db1" and
    db': "db' = update_order_status db1 (orderId ev) 2 None"
    by (auto simp: handle_solution_committed_def sol_def split: sum.splits)
  have again: "insert_solution db' sol = Inr db'"
  proof (cases "pool db")
    case False
    with ins have "\<not> pool db'" by (simp add: db' insert_solution_pool)
    then show ?thesis by (rule insert_solution_no_pool)
  next
    case True
    from insert_solution_row [OF ins True] obtain r where
      "solutions db1 (s_order_id sol) = Some r" "s_solution r = s_solution sol"
      "salt r = salt sol" "reveal_time r = reveal_time sol" "is_revealed r = is_revealed sol"
      by blast
    then show ?thesis
      by (intro insert_solution_same [where r = r]) (simp_all add: db')
  qed
  have "update_order_status db' (orderId ev) 2 None = db'"
    by (simp add: db' update_order_status_idem)
  with again SolutionCommittedArgs show ?thesis
    by (simp add: handle_solution_committed_def sol_def)
qed (use assms in \<open>simp_all add: handle_solution_committed_def\<close>)

lemma handle_solution_revealed_idem:
  assumes "handle_solution_revealed db ev ts txh = Inr db'"
  shows "handle_solution_revealed db' ev ts txh = Inr db'"
proof (cases "get_solution db (orderId ev)")
  case None
  with assms have db': "db' = update_order_status db (orderId ev) 3 None"
    by (simp add: handle_solution_revealed_def)
  from None have "get_solution db' (orderId ev) = None"
    by (simp add: get_solution_def db' split: if_splits)
  then show ?thesis
    by (simp add: handle_solution_revealed_def db' update_order_status_idem)
next
  case (Some existing)
  then have pool: "pool db" and oid: "s_order_id existing = orderId ev"
    by (auto simp: get_solution_def split: if_splits)
  show ?thesis
  proof (cases "args ev")
    case (SolutionRevealedArgs slv sol)
    define new where "new = existing\<lparr>s_solution := Some sol, reveal_time := Some ts,
                                 is_revealed := True\<rparr>"
    have key: "s_order_id new = orderId ev" by (simp add: new_def oid)
    from assms Some SolutionRevealedArgs obtain db1 where
      ins: "insert_solution db new = Inr db1" and
      db': "db' = update_order_status db1 (orderId ev) 3 None"
      by (auto simp: handle_solution_revealed_def new_def split: sum.splits)
    from insert_solution_row [OF ins pool] key obtain r where
      r: "solutions db1 (orderId ev) = Some r" "s_solution r = Some sol"
         "salt r = salt new" "reveal_time r = Some ts" "is_revealed r"
      by (auto simp: new_def)
    have pool': "pool db'" using pool ins by (simp add: db' insert_solution_pool)
    define existing' where "existing' = r\<lparr>s_order_id := orderId ev\<rparr>"
    have get': "get_solution db' (orderId ev) = Some existing'"
      using r(1) pool' by (simp add: get_solution_def db' existing'_def)
    define new' where "new' = existing'\<lparr>s_solution := Some sol, reveal_time := Some ts,
                                 is_revealed := True\<rparr>"
    have "insert_solution db' new' = Inr db'"
    proof (rule insert_solution_same [where r = r])
      show "solutions db' (s_order_id new') = Some r"
        using r(1) by (simp add: new'_def existing'_def db')
    qed (use r in \<open>simp_all add: new'_def existing'_def\<close>)
    moreover have "update_order_status db' (orderId ev) 3 None = db'"
      by (simp add: db' update_order_status_idem)
    ultimately show ?thesis
      using get' SolutionRevealedArgs by (simp add: handle_solution_revealed_def new'_def)
  qed (use assms Some in \<open>simp_all add: handle_solution_revealed_def\<close>)
qed

lemma insert_challenge_row:
  assumes "insert_challenge db ch = Inr db1" and "pool db"
  shows "\<exists>r. challenges db1 (ch_order_id ch) = Some r \<and> resolved r = resolved ch \<and>
             challenger_won r = challenger_won ch"
proof (cases "challenges db (ch_order_id ch)")
  case None
  with assms show ?thesis
    by (cases "orders db (ch_order_id ch) = None") (auto simp: insert_challenge_def)
next
  case (Some old)
  with assms show ?thesis by (auto simp: insert_challenge_def)
qed

lemma insert_challenge_pool:
  assumes "insert_challenge db ch = Inr db1"
  shows "pool db1 = pool db"
proof (cases "pool db")
  case False
  with assms show ?thesis by (simp add: insert_challenge_def)
next
  case True
  show ?thesis
  proof (cases "challenges db (ch_order_id ch)")
    case None
    with assms True show ?thesis
      by (cases "orders db (ch_order_id ch) = None") (auto simp: insert_challenge_def)
  next
    case (Some old)
    with assms True show ?thesis by (auto simp: insert_challenge_def)
  qed
qed

lemma insert_challenge_same:
  assumes "challenges db (ch_order_id ch) = Some r"
    and "resolved r = resolved ch" "challenger_won r = challenger_won ch"
  shows "insert_challenge db ch = Inr db"
proof (cases "pool db")
  case False
  then show ?thesis by (simp add: insert_challenge_def)
next
  case True
  have "r\<lparr>resolved := resolved ch, challenger_won := challenger_won ch\<rparr> = r"
    using assms(2-3) by simp
  moreover have "(challenges db)(ch_order_id ch \<mapsto> r) = challenges db"
    using assms(1) by (simp add: fun_upd_idem)
  ultimately show ?thesis
    using True assms(1) by (simp add: insert_challenge_def)
qed

lemma handle_challenge_submitted_idem:
  assumes "handle_challenge_submitted db ev ts txh = Inr db'"
  shows "handle_challenge_submitted db' ev ts txh = Inr db'"
proof (cases "args ev")
  case (ChallengeSubmittedArgs chal stk)
  define ch where "ch = \<lparr>ch_order_id = orderId ev, challenger = chal, stake = str_int stk,
                   ch_reason = [], challenge_time = ts, resolved = False,
                   challenger_won = False, ch_tx_hash = Some txh\<rparr>"
  from assms ChallengeSubmittedArgs obtain db1 where
    ins: "insert_challenge db ch = Inr db1" and
    db': "db' = update_order_status db1 (orderId ev) 5 None"
    by (auto simp: handle_challenge_submitted_def ch_def split: sum.splits)
  have again: "insert_challenge db' ch = Inr db'"
  proof (cases "pool db")
    case False
    with ins have "\<not> pool db'" by (simp add: db' insert_challenge_pool)
    then show ?thesis by (simp add: insert_challenge_def)
  next
    case True
    from insert_challenge_row [OF ins True] obtain r where
      "challenges db1 (ch_order_id ch) = Some r" "resolved r = resolved ch"
      "challenger_won r = challenger_won ch"
      by blast
    then show ?thesis
      by (intro insert_challenge_same [where r = r]) (simp_all add: db')
  qed
  have "update_order_status db' (orderId ev) 5 None = db'"
    by (simp add: db' update_order_status_idem)
  with again ChallengeSubmittedArgs show ?thesis
    by (simp add: handle_challenge_submitted_def ch_def)
qed (use assms in \<open>simp_all add: handle_challenge_submitted_def\<close>)

lemma apply_event_idem:
  "apply_event db etype ev ts = Inr db' \<Longrightarrow> apply_event db' etype ev ts = Inr db'"
  by (cases etype)
     (simp_all add: apply_event_def handle_problem_posted_idem handle_order_accepted_idem
        handle_solution_committed_idem handle_solution_revealed_idem handle_challenge_submitted_idem)

lemma handle_event_idem:
  "database (handle_event node (handle_event node st te) te) = database (handle_event node st te)"
proof (cases te)
  case (Pair etype ev)
  show ?thesis
  proof (cases "get_block_timestamp node (blockNumber ev)")
    case (Inl e)
    then show ?thesis by (simp add: Pair database_handle_event)
  next
    case (Inr ts)
    show ?thesis
    proof (cases "apply_event (database st) etype ev ts")
      case (Inl e)
      with Inr show ?thesis by (simp add: Pair database_handle_event)
    next
      case ok: (Inr db')
      with Inr apply_event_idem [OF ok] show ?thesis by (simp add: Pair database_handle_event)
    qed
  qed
qed

lemma insert_order_keeps:
  assumes "orders db oid = Some ord"
  shows "\<exists>ord'. orders (insert_order db new) oid = Some ord' \<and> issuer ord' = issuer ord \<and>
           created_at ord' = created_at ord \<and> problem_hash ord' = problem_hash ord"
  using assms by (auto simp: insert_order_def)

lemma update_order_status_keeps:
  assumes "orders db oid = Some ord"
  shows "\<exists>ord'. orders (update_order_status db k s slv) oid = Some ord' \<and>
           issuer ord' = issuer ord \<and> created_at ord' = created_at ord \<and>
           problem_hash ord' = problem_hash ord"
proof (cases "orders db k")
  case None
  with assms show ?thesis by (simp add: update_order_status_def)
next
  case (Some old)
  with assms show ?thesis by (cases "k = oid") (auto simp: update_order_status_def)
qed

lemma insert_solution_orders:
  assumes "insert_solution db sol = Inr db1"
  shows "orders db1 = orders db"
proof (cases "pool db")
  case False
  with assms show ?thesis by (simp add: insert_solution_def)
next
  case True
  show ?thesis
  proof (cases "solutions db (s_order_id sol)")
    case None
    with assms True show ?thesis
      by (cases "orders db (s_order_id sol) = None") (auto simp: insert_solution_def)
  next
    case (Some old)
    with assms True show ?thesis by (auto simp: insert_solution_def)
  qed
qed

lemma insert_challenge_orders:
  assumes "insert_challenge db ch = Inr db1"
  shows "orders db1 = orders db"
proof (cases "pool db")
  case False
  with assms show ?thesis by (simp add: insert_challenge_def)
next
  case True
  show ?thesis
  proof (cases "challenges db (ch_order_id ch)")
    case None
    with assms True show ?thesis
      by (cases "orders db (ch_order_id ch) = None") (auto simp: insert_challenge_def)
  next
    case (Some old)
    with assms True show ?thesis by (auto simp: insert_challenge_def)
  qed
qed

lemma update_after_insert_keeps:
  assumes "orders db oid = Some ord" and "orders db1 = orders db"
  shows "\<exists>ord'. orders (update_order_status db1 k s slv) oid = Some ord' \<and>
           issuer ord' = issuer ord \<and> created_at ord' = created_at ord \<and>
           problem_hash ord' = problem_hash ord"
  using assms update_order_status_keeps [of db1 oid ord k s slv] by simp

lemma apply_event_keeps:
  assumes ord: "orders db oid = Some ord" and ap: "apply_event db etype ev ts = Inr db'"
  shows "\<exists>ord'. orders db' oid = Some ord' \<and> issuer ord' = issuer ord \<and>
           created_at ord' = created_at ord \<and> problem_hash ord' = problem_hash ord"
proof (cases etype)
  case ProblemPosted
  with ap ord show ?thesis
    by (cases "args ev") (auto simp: apply_event_def handle_problem_posted_def insert_order_keeps)
next
  case OrderAccepted
  with ap ord show ?thesis
    by (cases "args ev")
       (auto simp: apply_event_def handle_order_accepted_def update_order_status_keeps)
next
  case SolutionCommitted
  with ap ord show ?thesis
    by (cases "args ev")
       (auto simp: apply_event_def handle_solution_committed_def split: sum.splits
             dest!: insert_solution_orders intro: update_after_insert_keeps)
next
  case SolutionRevealed
  with ap ord show ?thesis
    by (cases "get_solution db (orderId ev)"; cases "args ev")
       (auto simp: apply_event_def handle_solution_revealed_def update_order_status_keeps
             split: sum.splits dest!: insert_solution_orders intro: update_after_insert_keeps)
next
  case ChallengeSubmitted
  with ap ord show ?thesis
    by (cases "args ev")
       (auto simp: apply_event_def handle_challenge_submitted_def split: sum.splits
             dest!: insert_challenge_orders intro: update_after_insert_keeps)
qed (use ap ord in \<open>simp_all add: apply_event_def\<close>)

lemma handle_event_keeps:
  assumes "orders (database st) oid = Some ord"
  shows "\<exists>ord'. orders (database (handle_event node st te)) oid = Some ord' \<and>
           issuer ord' = issuer ord \<and> created_at ord' = created_at ord \<and>
           problem_hash ord' = problem_hash ord"
proof (cases te)
  case (Pair etype ev)
  show ?thesis
  proof (cases "get_block_timestamp node (blockNumber ev)")
    case (Inl e)
    with assms show ?thesis by (simp add: Pair database_handle_event)
  next
    case (Inr ts)
    show ?thesis
    proof (cases "apply_event (database st) etype ev ts")
      case (Inl e)
      with Inr assms show ?thesis by (simp add: Pair database_handle_event)
    next
      case ok: (Inr db')
      with Inr apply_event_keeps [OF assms ok] show ?thesis
        by (simp add: Pair database_handle_event)
    qed
  qed
qed

lemma foldl_handle_event_keeps:
  "orders (database st) oid = Some ord \<Longrightarrow>
   \<exists>ord'. orders (database (foldl (handle_event node) st events)) oid = Some ord' \<and>
           issuer ord' = issuer ord \<and> created_at ord' = created_at ord \<and>
           problem_hash ord' = problem_hash ord"
proof (induction events arbitrary: st ord)
  case Nil
  then show ?case by simp
next
  case (Cons te events)
  from handle_event_keeps [OF Cons.prems, of node te] obtain ord1 where
    o1: "orders (database (handle_event node st te)) oid = Some ord1"
    and eq: "issuer ord1 = issuer ord" "created_at ord1 = created_at ord"
            "problem_hash ord1 = problem_hash ord"
    by blast
  from Cons.IH [OF o1] eq show ?case by simp
qed

text \<open>
  Claim C6. Handling an event twice in succession leaves the store as handling it once
  does, for every event, every store and every answer of the node; and once the store
  holds an order, no sequence of handled events, re-deliveries included, changes the
  order's issuer, creation time or problem hash.
\<close>

theorem replay_idempotent_and_origin_fixed:
  "database (handle_event node (handle_event node st te) te) = database (handle_event node st te) \<and>
   (orders (database st) oid = Some ord \<longrightarrow>
      (\<exists>ord'. orders (database (foldl (handle_event node) st events)) oid = Some ord' \<and>
           issuer ord' = issuer ord \<and> created_at ord' = created_at ord \<and>
           problem_hash ord' = problem_hash ord))"
  using handle_event_idem foldl_handle_event_keeps by blast

text \<open>
  An instance: a commit handled twice, and a stale re-delivery of \<^verbatim>\<open>ProblemPosted\<close> with
  another issuer for an order that the store already holds.
\<close>

theorem replay_idempotent_and_origin_fixed_witness:
  "database (handle_event (quiet_node 50)
               (handle_event (quiet_node 50) sample_listener (SolutionCommitted, committed_event))
               (SolutionCommitted, committed_event)) =
   database (handle_event (quiet_node 50) sample_listener (SolutionCommitted, committed_event)) \<and>
   (\<exists>ord'. orders (database (foldl (handle_event (quiet_node 50)) sample_listener
                      [(ProblemPosted, stale_posted), (SolutionCommitted, committed_event)])) 7
              = Some ord' \<and>
           issuer ord' = ''0xA11CE'' \<and> created_at ord' = 1700000000 \<and> problem_hash ord' = [])"
  using replay_idempotent_and_origin_fixed
    [of "quiet_node 50" sample_listener "(SolutionCommitted, committed_event)" 7 sample_order
        "[(ProblemPosted, stale_posted), (SolutionCommitted, committed_event)]"]
  by (simp add: sample_listener_def sample_order_def)

subsection \<open>Historical catch-up\<close>

lemma running_handle_event: "running (handle_event node st te) = running st"
  by (cases te) (simp add: handle_event_def split: sum.splits)

lemma running_foldl_handle_event: "running (foldl (handle_event node) st events) = running st"
  by (induction events arbitrary: st) (simp_all add: running_handle_event)

lemma running_process_block_range: "running (process_block_range node st a b) = running st"
  by (simp add: process_block_range_def running_foldl_handle_event split: sum.splits)

lemma running_process_chunk: "running (process_chunk node st c) = running st"
  by (simp add: process_chunk_def running_process_block_range)

lemma sync_loop_chunks:
  "running st \<Longrightarrow>
   sync_loop node current_block from_block st =
     foldl (process_chunk node) st (chunks current_block from_block)"
proof (induction node current_block from_block st rule: sync_loop.induct)
  case (1 node current_block from_block st)
  show ?case
  proof (cases "from_block < current_block")
    case False
    then show ?thesis
      by (simp add: sync_loop.simps [of node current_block from_block st]
            chunks.simps [of current_block from_block])
  next
    case True
    define to_block where "to_block = min (from_block + chunk_size) current_block"
    define st' where "st' = process_block_range node st from_block to_block"
    have run': "running (st'\<lparr>last_processed_block := to_block\<rparr>)"
      using "1.prems" by (simp add: st'_def running_process_block_range)
    have "sync_loop node current_block from_block st =
            sync_loop node current_block (to_block + 1) (st'\<lparr>last_processed_block := to_block\<rparr>)"
      using True "1.prems"
      by (simp add: sync_loop.simps [of node current_block from_block st] Let_def
            to_block_def st'_def)
    also have "\<dots> = foldl (process_chunk node) (st'\<lparr>last_processed_block := to_block\<rparr>)
                       (chunks current_block (to_block + 1))"
      using "1.IH" [OF _ to_block_def st'_def run'] True "1.prems" by simp
    also have "\<dots> = foldl (process_chunk node) st (chunks current_block from_block)"
      using True
      by (simp add: chunks.simps [of current_block from_block] Let_def to_block_def st'_def
            process_chunk_def)
    finally show ?thesis .
  qed
qed

lemma chunks_bounds:
  "(a, b) \<in> set (chunks current_block from_block) \<Longrightarrow>
   from_block \<le> a \<and> a \<le> b \<and> b \<le> current_block"
proof (induction current_block from_block rule: chunks.induct)
  case (1 current_block from_block)
  show ?case
  proof (cases "from_block < current_block")
    case False
    with "1.prems" show ?thesis by (simp add: chunks.simps [of current_block from_block])
  next
    case True
    define to_block where "to_block = min (from_block + chunk_size) current_block"
    from "1.prems" True have
      "(a, b) = (from_block, to_block) \<or> (a, b) \<in> set (chunks current_block (to_block + 1))"
      by (simp add: chunks.simps [of current_block from_block] Let_def to_block_def)
    then show ?thesis
    proof
      assume "(a, b) = (from_block, to_block)"
      with True show ?thesis by (simp add: to_block_def chunk_size_def)
    next
      assume "(a, b) \<in> set (chunks current_block (to_block + 1))"
      from "1.IH" [OF True to_block_def this] True show ?thesis
        by (auto simp: to_block_def chunk_size_def min_def split: if_splits)
    qed
  qed
qed

lemma chunks_increasing:
  "sorted_wrt (\<lambda>c d. snd c < fst d) (chunks current_block from_block)"
proof (induction current_block from_block rule: chunks.induct)
  case (1 current_block from_block)
  show ?case
  proof (cases "from_block < current_block")
    case False
    then show ?thesis by (simp add: chunks.simps [of current_block from_block])
  next
    case True
    define to_block where "to_block = min (from_block + chunk_size) current_block"
    have "\<forall>d \<in> set (chunks current_block (to_block + 1)). to_block < fst d"
      using chunks_bounds [of _ _ current_block "to_block + 1"] by fastforce
    with "1.IH" [OF True to_block_def] True show ?thesis
      by (simp add: chunks.simps [of current_block from_block] Let_def to_block_def)
  qed
qed

lemma chunks_contiguous:
  "Suc i < length (chunks current_block from_block) \<Longrightarrow>
   fst (chunks current_block from_block ! Suc i) = snd (chunks current_block from_block ! i) + 1"
proof (induction current_block from_block arbitrary: i rule: chunks.induct)
  case (1 current_block from_block)
  show ?case
  proof (cases "from_block < current_block")
    case False
    with "1.prems" show ?thesis by (simp add: chunks.simps [of current_block from_block])
  next
    case True
    define to_block where "to_block = min (from_block + chunk_size) current_block"
    have cs: "chunks current_block from_block =
                (from_block, to_block) # chunks current_block (to_block + 1)"
      using True by (simp add: chunks.simps [of current_block from_block] Let_def to_block_def)
    show ?thesis
    proof (cases i)
      case 0
      with "1.prems" cs have ne: "to_block + 1 < current_block"
        by (auto simp: chunks.simps [of current_block "to_block + 1"] split: if_splits)
      then show ?thesis
        using 0 cs by (simp add: chunks.simps [of current_block "to_block + 1"] Let_def)
    next
      case (Suc j)
      with "1.prems" cs have "Suc j < length (chunks current_block (to_block + 1))" by simp
      from "1.IH" [OF True to_block_def this] show ?thesis by (simp add: cs Suc)
    qed
  qed
qed

lemma chunks_distinct: "distinct (chunks current_block from_block)"
proof -
  have "sorted_wrt (\<lambda>c d. c \<noteq> d) (chunks current_block from_block)"
    using chunks_increasing [of current_block from_block]
  proof (rule sorted_wrt_mono_rel [rotated])
    fix c d :: "int \<times> int"
    assume "c \<in> set (chunks current_block from_block)" "snd c < fst d"
    with chunks_bounds [of "fst c" "snd c" current_block from_block]
    show "c \<noteq> d" by auto
  qed
  then show ?thesis by (simp add: distinct_conv_nth sorted_wrt_iff_nth_less) (metis nat_neq_iff)
qed

lemma database_foldl_handle_event_cong:
  "database s = database s' \<Longrightarrow>
   database (foldl (handle_event node) s events) = database (foldl (handle_event node) s' events)"
proof (induction events arbitrary: s s')
  case Nil
  then show ?case by simp
next
  case (Cons te events)
  have "database (handle_event node s te) = database (handle_event node s' te)"
    using Cons.prems by (cases te) (simp only: database_handle_event)
  from Cons.IH [OF this] show ?case by simp
qed

lemma database_process_chunk_cong:
  assumes "database s = database s'"
  shows "database (process_chunk node s c) = database (process_chunk node s' c)"
proof (cases "fetch_events node (fst c) (snd c)")
  case (Inl e)
  with assms show ?thesis by (simp add: process_chunk_def process_block_range_def)
next
  case (Inr events)
  with database_foldl_handle_event_cong [OF assms, of node events] show ?thesis
    by (simp add: process_chunk_def process_block_range_def)
qed

lemma database_foldl_process_chunk_cong:
  "database s = database s' \<Longrightarrow>
   database (foldl (process_chunk node) s cs) = database (foldl (process_chunk node) s' cs)"
proof (induction cs arbitrary: s s')
  case Nil
  then show ?case by simp
next
  case (Cons c cs)
  from Cons.IH [OF database_process_chunk_cong [OF Cons.prems, of node c]] show ?case by simp
qed

lemma process_chunk_failed:
  assumes "fetch_events node a b = Inl e"
  shows "process_chunk node s (a, b) =
           s\<lparr>logged := logged s @
                [LogError (''Error processing blocks '' @ str_int a @ ''-'' @ str_int b @ '': '' @ e)],
             last_processed_block := b\<rparr>"
  using assms by (simp add: process_chunk_def process_block_range_def)

lemma logged_handle_event: "set (logged s) \<subseteq> set (logged (handle_event node s te))"
  by (cases te) (auto simp: handle_event_def split: sum.splits)

lemma logged_foldl_handle_event:
  "set (logged s) \<subseteq> set (logged (foldl (handle_event node) s events))"
proof (induction events arbitrary: s)
  case Nil
  then show ?case by simp
next
  case (Cons te events)
  from logged_handle_event [of s node te] Cons.IH [of "handle_event node s te"]
  show ?case by auto
qed

lemma logged_process_chunk: "set (logged s) \<subseteq> set (logged (process_chunk node s c))"
proof (cases "fetch_events node (fst c) (snd c)")
  case (Inl e)
  then show ?thesis by (auto simp: process_chunk_def process_block_range_def)
next
  case (Inr events)
  with logged_foldl_handle_event [of s node events] show ?thesis
    by (simp add: process_chunk_def process_block_range_def)
qed

lemma logged_foldl_process_chunk:
  "set (logged s) \<subseteq> set (logged (foldl (process_chunk node) s cs))"
proof (induction cs arbitrary: s)
  case Nil
  then show ?case by simp
next
  case (Cons c cs)
  from logged_process_chunk [of s node c] Cons.IH [of "process_chunk node s c"]
  show ?case by auto
qed

lemma last_processed_foldl_process_chunk:
  "last_processed_block (foldl (process_chunk node) s cs) =
     (if cs = [] then last_processed_block s else snd (last cs))"
proof (induction cs arbitrary: s)
  case Nil
  then show ?case by simp
next
  case (Cons c cs)
  then show ?case by (simp add: process_chunk_def)
qed

lemma chunks_last_is_greatest:
  assumes "c \<in> set (chunks current_block from_block)"
  shows "snd c \<le> snd (last (chunks current_block from_block))"
proof -
  let ?cs = "chunks current_block from_block"
  from assms obtain i where i: "i < length ?cs" "?cs ! i = c"
    by (auto simp: in_set_conv_nth)
  have ne: "?cs \<noteq> []" using assms by auto
  show ?thesis
  proof (cases "i = length ?cs - 1")
    case True
    with i ne show ?thesis by (simp add: last_conv_nth)
  next
    case False
    with i have "i < length ?cs - 1" by simp
    moreover have "length ?cs - 1 < length ?cs" using ne by simp
    ultimately have "snd (?cs ! i) < fst (?cs ! (length ?cs - 1))"
      using chunks_increasing [of current_block from_block]
      unfolding sorted_wrt_iff_nth_less by blast
    moreover have "?cs ! (length ?cs - 1) \<in> set ?cs" using ne by simp
    then have "fst (?cs ! (length ?cs - 1)) \<le> snd (?cs ! (length ?cs - 1))"
      using chunks_bounds [of "fst (?cs ! (length ?cs - 1))" "snd (?cs ! (length ?cs - 1))"
                             current_block from_block]
      by simp
    ultimately show ?thesis using i ne by (simp add: last_conv_nth)
  qed
qed

lemma sync_historical_events_chunks:
  assumes head: "eth_block_number node = Inr current_block"
    and run: "running st"
    and behind: "last_processed_block st < current_block"
  shows "\<exists>st'. sync_historical_events node st = Inr st' \<and>
           database st' =
             database (foldl (process_chunk node) st
                        (chunks current_block (last_processed_block st))) \<and>
           last_processed_block st' =
             snd (last (chunks current_block (last_processed_block st))) \<and>
           set (logged (foldl (process_chunk node)
                  (st\<lparr>logged := logged st @
                          [LogInfo (''Syncing historical events from '' @
                                    str_int (last_processed_block st) @ '' to '' @
                                    str_int current_block)]\<rparr>)
                  (chunks current_block (last_processed_block st)))) \<subseteq> set (logged st')"
proof -
  define st1 where "st1 = st\<lparr>logged := logged st @
                          [LogInfo (''Syncing historical events from '' @
                                    str_int (last_processed_block st) @ '' to '' @
                                    str_int current_block)]\<rparr>"
  define st2 where "st2 = sync_loop node current_block (last_processed_block st1) st1"
  have run1: "running st1" using run by (simp add: st1_def)
  have st2: "st2 = foldl (process_chunk node) st1 (chunks current_block (last_processed_block st))"
    using sync_loop_chunks [OF run1] by (simp add: st2_def st1_def)
  have ne: "chunks current_block (last_processed_block st) \<noteq> []"
    using behind by (simp add: chunks.simps [of current_block "last_processed_block st"] Let_def)
  have res: "sync_historical_events node st =
          Inr (st2\<lparr>logged := logged st2 @
                          [LogInfo (''Historical sync complete. At block '' @
                                    str_int (last_processed_block st2))]\<rparr>)"
    using head behind by (simp add: sync_historical_events_def Let_def st1_def st2_def)
  have "database st2 = database (foldl (process_chunk node) st
                        (chunks current_block (last_processed_block st)))"
    unfolding st2 by (rule database_foldl_process_chunk_cong) (simp add: st1_def)
  moreover have "last_processed_block st2 =
             snd (last (chunks current_block (last_processed_block st)))"
    using ne by (simp add: st2 last_processed_foldl_process_chunk)
  ultimately show ?thesis
    using res st2 by (auto simp: st1_def)
qed

lemma chunks_1001: "chunks 1001 0 = [(0, 1000)]"
  by (simp add: chunks.simps chunk_size_def)

lemma chunks_2500: "chunks 2500 0 = [(0, 1000), (1001, 2001), (2002, 2500)]"
  by (simp add: chunks.simps chunk_size_def)

lemma foldl_process_chunk_failed:
  assumes fails: "fetch_events node a b = Inl e"
  shows "database (foldl (process_chunk node) s (xs @ (a, b) # ys)) =
           database (foldl (process_chunk node) s (xs @ ys))"
    and "LogError (''Error processing blocks '' @ str_int a @ ''-'' @ str_int b @ '': '' @ e)
           \<in> set (logged (foldl (process_chunk node) s (xs @ (a, b) # ys)))"
proof -
  define sx where "sx = foldl (process_chunk node) s xs"
  have "database (process_chunk node sx (a, b)) = database sx"
    by (simp add: process_chunk_failed [OF fails])
  from database_foldl_process_chunk_cong [OF this, of node ys]
  show "database (foldl (process_chunk node) s (xs @ (a, b) # ys)) =
           database (foldl (process_chunk node) s (xs @ ys))"
    by (simp add: sx_def)
  have "LogError (''Error processing blocks '' @ str_int a @ ''-'' @ str_int b @ '': '' @ e)
           \<in> set (logged (process_chunk node sx (a, b)))"
    by (simp add: process_chunk_failed [OF fails])
  with logged_foldl_process_chunk [of "process_chunk node sx (a, b)" node ys]
  show "LogError (''Error processing blocks '' @ str_int a @ ''-'' @ str_int b @ '': '' @ e)
           \<in> set (logged (foldl (process_chunk node) s (xs @ (a, b) # ys)))"
    by (auto simp: sx_def)
qed

text \<open>
  Claim C7 says that every catch-up run partitions the heights from the starting
  checkpoint to the head into contiguous chunks, visited in increasing order, no height
  in two chunks, and that the checkpoint ends at the head. The order, the contiguity and
  the disjointness hold (\<open>chunks_increasing\<close>, \<open>chunks_contiguous\<close>), and a head of 2500
  gives three chunks ending at 2500 (\<open>chunks_2500\<close>). The end does not hold at every
  input. Here the listener starts at height 0 and the head is 1001: the loop runs while
  \<^verbatim>\<open>from_block < current_block\<close>, and after the range 0 to 1000 the next start is 1001,
  which is not below the head. Catch-up makes that one request and leaves the checkpoint
  at 1000; height 1001 is in no chunk.
\<close>

theorem catch_up_stops_before_head:
  "chunks 1001 0 = [(0, 1000)] \<and>
   (\<exists>st'. sync_historical_events (quiet_node 1001) fresh_listener = Inr st' \<and>
           last_processed_block st' = 1000)"
proof -
  have head: "eth_block_number (quiet_node 1001) = Inr 1001" by (simp add: quiet_node_def)
  have run: "running fresh_listener" by (simp add: fresh_listener_def)
  have behind: "last_processed_block fresh_listener < 1001" by (simp add: fresh_listener_def)
  have lp: "last_processed_block fresh_listener = 0" by (simp add: fresh_listener_def)
  from sync_historical_events_chunks [OF head run behind] chunks_1001 show ?thesis
    by (auto simp: lp)
qed

text \<open>
  Claim C10. When the log requests of one catch-up range fail, catch-up still returns
  normally; the error is in the log; the checkpoint ends at or above the end of that
  range; the ranges are pairwise distinct, so the range is not asked for again; and the
  store at the end is the store of a catch-up that never visited the range: its events
  are missing from the mirror.
\<close>

theorem failed_chunk_dropped:
  assumes head: "eth_block_number node = Inr current_block"
    and run: "running st"
    and behind: "last_processed_block st < current_block"
    and chunk: "(a, b) \<in> set (chunks current_block (last_processed_block st))"
    and fails: "fetch_events node a b = Inl e"
  shows "\<exists>st'. sync_historical_events node st = Inr st' \<and>
           LogError (''Error processing blocks '' @ str_int a @ ''-'' @ str_int b @ '': '' @ e)
             \<in> set (logged st') \<and>
           b \<le> last_processed_block st' \<and>
           distinct (chunks current_block (last_processed_block st)) \<and>
           database st' =
             database (foldl (process_chunk node) st
                        (remove1 (a, b) (chunks current_block (last_processed_block st))))"
proof -
  let ?cs = "chunks current_block (last_processed_block st)"
  let ?st1 = "st\<lparr>logged := logged st @
                          [LogInfo (''Syncing historical events from '' @
                                    str_int (last_processed_block st) @ '' to '' @
                                    str_int current_block)]\<rparr>"
  from sync_historical_events_chunks [OF head run behind] obtain st' where
    res: "sync_historical_events node st = Inr st'"
    and db: "database st' = database (foldl (process_chunk node) st ?cs)"
    and lp: "last_processed_block st' = snd (last ?cs)"
    and lg: "set (logged (foldl (process_chunk node) ?st1 ?cs)) \<subseteq> set (logged st')"
    by blast
  from split_list_first [OF chunk] obtain xs ys where
    cs: "?cs = xs @ (a, b) # ys" and first: "(a, b) \<notin> set xs"
    by blast
  have rm: "remove1 (a, b) ?cs = xs @ ys"
    using first by (simp add: cs remove1_append)
  have "LogError (''Error processing blocks '' @ str_int a @ ''-'' @ str_int b @ '': '' @ e)
          \<in> set (logged st')"
    using foldl_process_chunk_failed(2) [OF fails, of ?st1 xs ys] lg by (auto simp: cs)
  moreover have "b \<le> last_processed_block st'"
    using chunks_last_is_greatest [OF chunk] by (simp add: lp)
  moreover have "database st' = database (foldl (process_chunk node) st (remove1 (a, b) ?cs))"
    using foldl_process_chunk_failed(1) [OF fails, of st xs ys] db by (simp add: rm) (simp add: cs)
  ultimately show ?thesis
    using res chunks_distinct by blast
qed

theorem failed_chunk_dropped_witness:
  "\<exists>st'. sync_historical_events (failing_node 2500) fresh_listener = Inr st' \<and>
     LogError (''Error processing blocks '' @ str_int 1001 @ ''-'' @ str_int 2001 @ '': timeout'')
       \<in> set (logged st') \<and>
     2001 \<le> last_processed_block st' \<and>
     database st' = empty_database"
proof -
  have head: "eth_block_number (failing_node 2500) = Inr 2500"
    by (simp add: failing_node_def)
  have run: "running fresh_listener" by (simp add: fresh_listener_def)
  have behind: "last_processed_block fresh_listener < 2500" by (simp add: fresh_listener_def)
  have lp: "last_processed_block fresh_listener = 0" by (simp add: fresh_listener_def)
  have chunk: "(1001, 2001) \<in> set (chunks 2500 (last_processed_block fresh_listener))"
    by (simp add: lp chunks_2500)
  have fails: "\<And>a b. fetch_events (failing_node 2500) a b = Inl ''timeout''"
    by (simp add: fetch_events_def failing_node_def)
  have pc: "\<And>s c. database (process_chunk (failing_node 2500) s c) = database s"
    by (simp add: process_chunk_def process_block_range_def fails)
  have "database (foldl (process_chunk (failing_node 2500)) fresh_listener
                    (remove1 (1001, 2001) (chunks 2500 (last_processed_block fresh_listener))))
          = empty_database"
    by (simp add: lp chunks_2500 pc) (simp add: fresh_listener_def)
  with failed_chunk_dropped [OF head run behind chunk fails] show ?thesis
    by auto
qed

section \<open>Properties of the solver bot\<close>

subsection \<open>The re-polling loop\<close>

lemma observed_committed_0: "\<not> observed_committed check 0"
  by (simp add: observed_committed_def)

lemma observed_committed_Suc:
  "observed_committed check (Suc n) =
     (case check 0 of
        Inl e \<Rightarrow> False
      | Inr ord \<Rightarrow> sdk_status ord = COMMITTED \<or> observed_committed (\<lambda>i. check (Suc i)) n)"
proof (cases "check 0")
  case (Inl e)
  have "\<not> observed_committed check (Suc n)"
  proof
    assume "observed_committed check (Suc n)"
    then obtain i where i: "\<exists>ord. check i = Inr ord \<and> sdk_status ord = COMMITTED"
      "\<forall>j<i. \<exists>ord. check j = Inr ord \<and> sdk_status ord \<noteq> COMMITTED"
      by (auto simp: observed_committed_def)
    show False
    proof (cases i)
      case 0
      with i(1) Inl show False by simp
    next
      case (Suc k)
      with i(2) have "\<exists>ord. check 0 = Inr ord" by auto
      with Inl show False by simp
    qed
  qed
  with Inl show ?thesis by simp
next
  case (Inr ord)
  show ?thesis
  proof (cases "sdk_status ord = COMMITTED")
    case True
    with Inr have "observed_committed check (Suc n)"
      unfolding observed_committed_def by (intro exI [of _ 0]) simp
    with Inr True show ?thesis by simp
  next
    case False
    have "observed_committed check (Suc n) = observed_committed (\<lambda>i. check (Suc i)) n"
    proof
      assume "observed_committed check (Suc n)"
      then obtain i where i: "i < Suc n" "\<exists>ord. check i = Inr ord \<and> sdk_status ord = COMMITTED"
        "\<forall>j<i. \<exists>ord. check j = Inr ord \<and> sdk_status ord \<noteq> COMMITTED"
        by (auto simp: observed_committed_def)
      from i(2) Inr False obtain k where k: "i = Suc k" by (cases i) auto
      have "\<forall>j<k. \<exists>ord. check (Suc j) = Inr ord \<and> sdk_status ord \<noteq> COMMITTED"
        using i(3) k by auto
      with i(1,2) k show "observed_committed (\<lambda>i. check (Suc i)) n"
        unfolding observed_committed_def by (intro exI [of _ k]) simp
    next
      assume "observed_committed (\<lambda>i. check (Suc i)) n"
      then obtain k where k: "k < n" "\<exists>ord. check (Suc k) = Inr ord \<and> sdk_status ord = COMMITTED"
        "\<forall>j<k. \<exists>ord. check (Suc j) = Inr ord \<and> sdk_status ord \<noteq> COMMITTED"
        by (auto simp: observed_committed_def)
      have "\<forall>j<Suc k. \<exists>ord. check j = Inr ord \<and> sdk_status ord \<noteq> COMMITTED"
      proof (intro allI impI)
        fix j assume "j < Suc k"
        then show "\<exists>ord. check j = Inr ord \<and> sdk_status ord \<noteq> COMMITTED"
          using k(3) Inr False by (cases j) auto
      qed
      with k(1,2) show "observed_committed check (Suc n)"
        unfolding observed_committed_def by (intro exI [of _ "Suc k"]) simp
    qed
    with Inr False show ?thesis by simp
  qed
qed

lemma poll_committed_seen:
  "(snd (poll_committed check n k) = Inr True) = observed_committed (\<lambda>i. check (k + i)) n"
proof (induction n arbitrary: k)
  case 0
  then show ?case by (simp add: observed_committed_0)
next
  case (Suc n)
  show ?case
  proof (cases "check k")
    case (Inl e)
    then show ?thesis by (simp add: observed_committed_Suc)
  next
    case (Inr ord)
    with Suc.IH [of "Suc k"] show ?thesis
      by (simp add: observed_committed_Suc split_beta)
  qed
qed

lemma poll_committed_effects:
  "\<exists>m\<le>n. fst (poll_committed check n k) = concat (replicate m [Sleep 3, GetOrder])"
proof (induction n arbitrary: k)
  case 0
  then show ?case by simp
next
  case (Suc n)
  show ?case
  proof (cases "check k")
    case (Inl e)
    then show ?thesis by (intro exI [of _ 1]) simp
  next
    case (Inr ord)
    show ?thesis
    proof (cases "sdk_status ord = COMMITTED")
      case True
      with Inr show ?thesis by (intro exI [of _ 1]) simp
    next
      case False
      from Suc.IH [of "Suc k"] obtain m where
        m: "m \<le> n" "fst (poll_committed check n (Suc k)) = concat (replicate m [Sleep 3, GetOrder])"
        by blast
      with Inr False show ?thesis
        by (intro exI [of _ "Suc m"]) (simp add: split_beta)
    qed
  qed
qed

lemma poll_committed_exhausted:
  "(\<forall>i<n. \<exists>ord. check (k + i) = Inr ord \<and> sdk_status ord \<noteq> COMMITTED) \<Longrightarrow>
   poll_committed check n k = (concat (replicate n [Sleep 3, GetOrder]), Inr False)"
proof (induction n arbitrary: k)
  case 0
  then show ?case by simp
next
  case (Suc n)
  from Suc.prems [rule_format, of 0] obtain ord where
    ord: "check k = Inr ord" "sdk_status ord \<noteq> COMMITTED" by auto
  have "\<forall>i<n. \<exists>ord. check (Suc k + i) = Inr ord \<and> sdk_status ord \<noteq> COMMITTED"
    using Suc.prems by (metis Suc_less_eq add_Suc_shift)
  from Suc.IH [OF this] ord show ?case by simp
qed

lemma poll_committed_no_submission:
  "RevealSolution \<notin> set (fst (poll_committed check n k)) \<and>
   CommitSolution \<notin> set (fst (poll_committed check n k))"
  using poll_committed_effects [of n check k] by (auto split: if_splits)

lemma reveal_step_effects: "RevealSolution \<in> set (fst (reveal_step env))"
  by (simp add: reveal_step_def split: sum.splits)

lemma reveal_step_reads:
  "length (filter ((=) GetOrder) (fst (reveal_step env))) \<le> 1"
  by (simp add: reveal_step_def split: sum.splits)

lemma poll_committed_reads:
  "length (filter ((=) GetOrder) (fst (poll_committed check n k))) \<le> n"
proof -
  from poll_committed_effects [of n check k] obtain m where
    m: "m \<le> n" "fst (poll_committed check n k) = concat (replicate m [Sleep 3, GetOrder])"
    by blast
  have "length (filter ((=) GetOrder) (concat (replicate m [Sleep 3, GetOrder]))) = m"
    by (induction m) simp_all
  with m show ?thesis by simp
qed

lemma bot_submit_failed_receipt:
  assumes receipt: "commit_solution env = Inr False"
    and fresh: "fresh_order env = Inr fresh"
    and slv: "sdk_solver fresh = Some slv" "lower slv = lower address"
    and st: "sdk_status fresh \<noteq> COMMITTED"
    and p5: "poll_committed (check_order env) 5 0 = (effs, r)"
    and warn: "warn = (if time_remaining fresh < 30
                       then [AddLog (''[BOT] WARNING: Only '' @ str_int (time_remaining fresh)
                                     @ ''s left!'') ''warning'']
                       else [])"
  shows "bot_submit address env =
          (case r of
             Inl e \<Rightarrow> (GetOrder # warn @ [CommitSolution] @ effs @ [GetOrder], SubmitError e)
           | Inr seen \<Rightarrow>
               if \<not> seen then (GetOrder # warn @ [CommitSolution] @ effs, CommitFailedAfterRetries)
               else (GetOrder # warn @ [CommitSolution] @ effs @ fst (reveal_step env),
                     snd (reveal_step env)))"
  using receipt fresh slv st
  by (simp add: bot_submit_def Let_def warn p5 split_beta split: sum.splits)

lemma bot_reveal_after_failed_receipt:
  assumes receipt: "commit_solution env = Inr False"
    and fresh: "fresh_order env = Inr fresh"
    and slv: "sdk_solver fresh = Some slv" "lower slv = lower address"
    and st: "sdk_status fresh \<noteq> COMMITTED"
  shows "(RevealSolution \<in> set (fst (bot_submit address env))) =
           observed_committed (check_order env) 5"
proof -
  define warn where "warn = (if time_remaining fresh < 30
                       then [AddLog (''[BOT] WARNING: Only '' @ str_int (time_remaining fresh)
                                     @ ''s left!'') ''warning'']
                       else [])"
  have warn: "RevealSolution \<notin> set warn" by (simp add: warn_def)
  obtain effs r where p5: "poll_committed (check_order env) 5 0 = (effs, r)"
    by (cases "poll_committed (check_order env) 5 0") auto
  have seen5: "(r = Inr True) = observed_committed (check_order env) 5"
    using poll_committed_seen [of "check_order env" 5 0] by (simp add: p5)
  have no5: "RevealSolution \<notin> set effs"
    using poll_committed_no_submission [of "check_order env" 5 0] by (simp add: p5)
  show ?thesis
    unfolding seen5 [symmetric] bot_submit_failed_receipt [OF receipt fresh slv st p5 warn_def]
    using warn no5 reveal_step_effects [of env]
    by (cases r) auto
qed

lemma lower_address: "lower ''0xB0B'' = lower ''0xb0b''"
  by code_simp

lemma str_int_0: "str_int 0 = ''0''"
  by code_simp

lemma bot_submit_reveal_needs:
  assumes "RevealSolution \<in> set (fst (bot_submit address env))"
  shows "\<exists>fresh slv. fresh_order env = Inr fresh \<and> sdk_solver fresh = Some slv \<and>
           lower slv = lower address \<and> sdk_status fresh \<noteq> COMMITTED \<and>
           (commit_solution env = Inr True \<or>
            commit_solution env = Inr False \<and> observed_committed (check_order env) 5)"
proof (cases "fresh_order env")
  case (Inl e)
  with assms show ?thesis by (simp add: bot_submit_def)
next
  case (Inr fresh)
  show ?thesis
  proof (cases "sdk_solver fresh")
    case None
    with assms Inr show ?thesis by (simp add: bot_submit_def)
  next
    case (Some slv)
    show ?thesis
    proof (cases "lower slv = lower address \<and> sdk_status fresh \<noteq> COMMITTED")
      case False
      with assms Inr Some show ?thesis
        by (auto simp: bot_submit_def Let_def split: if_splits)
    next
      case True
      show ?thesis
      proof (cases "commit_solution env")
        case (Inl e)
        with assms Inr Some True show ?thesis
          by (auto simp: bot_submit_def Let_def split: if_splits)
      next
        case receipt: (Inr committed)
        show ?thesis
        proof (cases committed)
          case True
          with receipt Inr Some \<open>lower slv = lower address \<and> sdk_status fresh \<noteq> COMMITTED\<close>
          show ?thesis by simp
        next
          case False
          with receipt have r: "commit_solution env = Inr False" by simp
          from bot_reveal_after_failed_receipt [OF r Inr Some] True assms
          have "observed_committed (check_order env) 5" by simp
          with r Inr Some True show ?thesis by simp
        qed
      qed
    qed
  qed
qed

lemma lower_other: "lower ''0xE7E'' \<noteq> lower ''0xb0b''"
  by code_simp

subsection \<open>A commit whose receipt reports failure\<close>

text \<open>
  Claim C8, as stated, fails for the SDK's own \<^verbatim>\<open>submit_solution\<close>. The commit receipt
  reports failure while the first re-poll would already read \<^verbatim>\<open>COMMITTED\<close>; the method
  raises at once, reads the order not once and submits no reveal.
\<close>

theorem commit_failure_final_counterexample:
  "commit_solution landed_commit_env = Inr False \<and>
   check_order landed_commit_env 0 =
     Inr \<lparr>sdk_status = COMMITTED, time_remaining = 190, sdk_solver = Some ''0xB0B''\<rparr> \<and>
   submit_solution landed_commit_env = ([CommitSolution], Inl CommitFailed)"
  by (simp add: landed_commit_env_def submit_solution_def)

text \<open>
  Claim C8, amended. When the commit receipt reports failure (and the checks before the
  commit have passed), the bot server re-polls the order: at most 5 times in
  \<^verbatim>\<open>bot_loop\<close> and at most 3 times in \<^verbatim>\<open>AutoSolver.solve_and_submit\<close> and in the webhook
  route, each read after a sleep of 3 seconds. The reveal is handed to the SDK exactly
  when \<^verbatim>\<open>COMMITTED\<close> is observed within that budget; when every re-poll answers with
  another status the attempt ends as failed (\<open>CommitFailedAfterRetries\<close>, \<^verbatim>\<open>False\<close>,
  respectively status \<^verbatim>\<open>commit_failed\<close>) and no reveal is submitted.
  \<^verbatim>\<open>OminisSDK.submit_solution\<close> makes no re-poll: a failed receipt is final there, the
  method raises and neither reads the order nor reveals.
\<close>

theorem ambiguous_commit_repolled:
  assumes receipt: "commit_solution env = Inr False"
    and fresh: "fresh_order env = Inr fresh"
    and slv: "sdk_solver fresh = Some slv" "lower slv = lower address"
    and st: "sdk_status fresh \<noteq> COMMITTED"
  shows "(RevealSolution \<in> set (fst (bot_submit address env))) =
           observed_committed (check_order env) 5 \<and>
         (RevealSolution \<in> set (fst (solve_and_submit env))) =
           observed_committed (check_order env) 3 \<and>
         ((\<forall>i<5. \<exists>ord. check_order env i = Inr ord \<and> sdk_status ord \<noteq> COMMITTED) \<longrightarrow>
            snd (bot_submit address env) = CommitFailedAfterRetries) \<and>
         ((\<forall>i<3. \<exists>ord. check_order env i = Inr ord \<and> sdk_status ord \<noteq> COMMITTED) \<longrightarrow>
            \<not> snd (solve_and_submit env)) \<and>
         (\<exists>m\<le>5. fst (poll_committed (check_order env) 5 0) =
                    concat (replicate m [Sleep 3, GetOrder])) \<and>
         (\<exists>m\<le>3. fst (poll_committed (check_order env) 3 0) =
                    concat (replicate m [Sleep 3, GetOrder])) \<and>
         length (filter ((=) GetOrder) (fst (bot_submit address env))) \<le> 7 \<and>
         length (filter ((=) GetOrder) (fst (solve_and_submit env))) \<le> 3 \<and>
         (RevealSolution \<in> set (fst (webhook_submit env))) =
           observed_committed (check_order env) 3 \<and>
         ((\<forall>i<3. \<exists>ord. check_order env i = Inr ord \<and> sdk_status ord \<noteq> COMMITTED) \<longrightarrow>
            snd (webhook_submit env) = ''commit_failed'') \<and>
         length (filter ((=) GetOrder) (fst (webhook_submit env))) \<le> 3 \<and>
         submit_solution env = ([CommitSolution], Inl CommitFailed)"
proof -
  define warn where "warn = (if time_remaining fresh < 30
                       then [AddLog (''[BOT] WARNING: Only '' @ str_int (time_remaining fresh)
                                     @ ''s left!'') ''warning'']
                       else [])"
  have warn: "RevealSolution \<notin> set warn" "filter ((=) GetOrder) warn = []"
    by (simp_all add: warn_def)
  obtain effs r where p5: "poll_committed (check_order env) 5 0 = (effs, r)"
    by (cases "poll_committed (check_order env) 5 0") auto
  obtain effs3 r3 where p3: "poll_committed (check_order env) 3 0 = (effs3, r3)"
    by (cases "poll_committed (check_order env) 3 0") auto
  have seen5: "(r = Inr True) = observed_committed (check_order env) 5"
    using poll_committed_seen [of "check_order env" 5 0] by (simp add: p5)
  have seen3: "(r3 = Inr True) = observed_committed (check_order env) 3"
    using poll_committed_seen [of "check_order env" 3 0] by (simp add: p3)
  have no5: "RevealSolution \<notin> set effs"
    using poll_committed_no_submission [of "check_order env" 5 0] by (simp add: p5)
  have no3: "RevealSolution \<notin> set effs3"
    using poll_committed_no_submission [of "check_order env" 3 0] by (simp add: p3)
  have reads5: "length (filter ((=) GetOrder) effs) \<le> 5"
    using poll_committed_reads [of "check_order env" 5 0] by (simp add: p5)
  have reads3: "length (filter ((=) GetOrder) effs3) \<le> 3"
    using poll_committed_reads [of "check_order env" 3 0] by (simp add: p3)
  note bot = bot_submit_failed_receipt [OF receipt fresh slv st p5 warn_def]
  have auto_solver: "solve_and_submit env =
          (case r3 of
             Inl e \<Rightarrow> (CommitSolution # effs3, False)
           | Inr seen \<Rightarrow>
               if \<not> seen then (CommitSolution # effs3, False)
               else (case reveal_solution env of
                       Inl e \<Rightarrow> (CommitSolution # effs3 @ [Sleep 3, RevealSolution], False)
                     | Inr success \<Rightarrow>
                         (CommitSolution # effs3 @ [Sleep 3, RevealSolution], success)))"
    using receipt by (simp add: solve_and_submit_def p3)
  have webhook: "webhook_submit env =
          (case r3 of
             Inl e \<Rightarrow> (CommitSolution # effs3, ''chain_error'')
           | Inr seen \<Rightarrow>
               if \<not> seen then (CommitSolution # effs3, ''commit_failed'')
               else (case reveal_solution env of
                       Inl e \<Rightarrow> (CommitSolution # effs3 @ [Sleep 2, RevealSolution],
                                 ''chain_error'')
                     | Inr success \<Rightarrow>
                         (CommitSolution # effs3 @ [Sleep 2, RevealSolution],
                          if success then ''completed'' else ''reveal_failed'')))"
    using receipt by (simp add: webhook_submit_def p3)
  note c1 = bot_reveal_after_failed_receipt [OF receipt fresh slv st]
  have c2: "(RevealSolution \<in> set (fst (solve_and_submit env))) =
           observed_committed (check_order env) 3"
    unfolding seen3 [symmetric] auto_solver using no3
    by (cases r3) (auto split: sum.splits)
  have c3: "(\<forall>i<5. \<exists>ord. check_order env i = Inr ord \<and> sdk_status ord \<noteq> COMMITTED) \<longrightarrow>
            snd (bot_submit address env) = CommitFailedAfterRetries"
  proof
    assume "\<forall>i<5. \<exists>ord. check_order env i = Inr ord \<and> sdk_status ord \<noteq> COMMITTED"
    then have "poll_committed (check_order env) 5 0 =
                 (concat (replicate 5 [Sleep 3, GetOrder]), Inr False)"
      by (intro poll_committed_exhausted) simp
    with p5 have "r = Inr False" by simp
    then show "snd (bot_submit address env) = CommitFailedAfterRetries" by (simp add: bot)
  qed
  have exhausted3: "r3 = Inr False"
    if "\<forall>i<3. \<exists>ord. check_order env i = Inr ord \<and> sdk_status ord \<noteq> COMMITTED"
  proof -
    from that have "poll_committed (check_order env) 3 0 =
                 (concat (replicate 3 [Sleep 3, GetOrder]), Inr False)"
      by (intro poll_committed_exhausted) simp
    with p3 show ?thesis by simp
  qed
  have c4: "(\<forall>i<3. \<exists>ord. check_order env i = Inr ord \<and> sdk_status ord \<noteq> COMMITTED) \<longrightarrow>
            \<not> snd (solve_and_submit env)"
    using exhausted3 by (auto simp: auto_solver)
  note c5 = poll_committed_effects [of 5 "check_order env" 0]
  note c6 = poll_committed_effects [of 3 "check_order env" 0]
  have c7: "length (filter ((=) GetOrder) (fst (bot_submit address env))) \<le> 7"
    unfolding bot using warn(2) reads5 reveal_step_reads [of env]
    by (cases r) auto
  have c8: "length (filter ((=) GetOrder) (fst (solve_and_submit env))) \<le> 3"
    unfolding auto_solver using reads3
    by (cases r3) (auto split: sum.splits)
  have c9: "(RevealSolution \<in> set (fst (webhook_submit env))) =
           observed_committed (check_order env) 3"
    unfolding seen3 [symmetric] webhook using no3
    by (cases r3) (auto split: sum.splits)
  have c10: "(\<forall>i<3. \<exists>ord. check_order env i = Inr ord \<and> sdk_status ord \<noteq> COMMITTED) \<longrightarrow>
            snd (webhook_submit env) = ''commit_failed''"
    using exhausted3 by (auto simp: webhook)
  have c11: "length (filter ((=) GetOrder) (fst (webhook_submit env))) \<le> 3"
    unfolding webhook using reads3
    by (cases r3) (auto split: sum.splits)
  have c12: "submit_solution env = ([CommitSolution], Inl CommitFailed)"
    using receipt by (simp add: submit_solution_def)
  show ?thesis
    by (intro conjI) (rule c1 c2 c3 c4 c5 c6 c7 c8 c9 c10 c11 c12)+
qed

theorem ambiguous_commit_repolled_witness:
  "RevealSolution \<in> set (fst (bot_submit ''0xb0b'' late_commit_env)) \<and>
   RevealSolution \<in> set (fst (solve_and_submit late_commit_env)) \<and>
   RevealSolution \<in> set (fst (webhook_submit late_commit_env)) \<and>
   submit_solution late_commit_env = ([CommitSolution], Inl CommitFailed) \<and>
   RevealSolution \<notin> set (fst (bot_submit ''0xb0b'' lost_commit_env)) \<and>
   snd (bot_submit ''0xb0b'' lost_commit_env) = CommitFailedAfterRetries \<and>
   \<not> snd (solve_and_submit lost_commit_env) \<and>
   RevealSolution \<notin> set (fst (webhook_submit lost_commit_env)) \<and>
   snd (webhook_submit lost_commit_env) = ''commit_failed''"
proof -
  have seen: "observed_committed (check_order late_commit_env) 5"
    "observed_committed (check_order late_commit_env) 3"
    unfolding observed_committed_def
    by (intro exI [of _ 1]; simp add: late_commit_env_def)+
  have never: "\<forall>i<5. \<exists>ord. check_order lost_commit_env i = Inr ord \<and> sdk_status ord \<noteq> COMMITTED"
    "\<forall>i<3. \<exists>ord. check_order lost_commit_env i = Inr ord \<and> sdk_status ord \<noteq> COMMITTED"
    by (simp_all add: lost_commit_env_def)
  have unseen: "\<not> observed_committed (check_order lost_commit_env) 5"
    "\<not> observed_committed (check_order lost_commit_env) 3"
    by (simp_all add: observed_committed_def lost_commit_env_def)
  from seen ambiguous_commit_repolled
         [of late_commit_env "\<lparr>sdk_status = ACCEPTED, time_remaining = 200, sdk_solver = Some ''0xB0B''\<rparr>"
             "''0xB0B''" "''0xb0b''"]
  have a: "RevealSolution \<in> set (fst (bot_submit ''0xb0b'' late_commit_env)) \<and>
           RevealSolution \<in> set (fst (solve_and_submit late_commit_env)) \<and>
           RevealSolution \<in> set (fst (webhook_submit late_commit_env)) \<and>
           submit_solution late_commit_env = ([CommitSolution], Inl CommitFailed)"
    by (simp add: late_commit_env_def lower_address)
  from never unseen ambiguous_commit_repolled
         [of lost_commit_env "\<lparr>sdk_status = ACCEPTED, time_remaining = 200, sdk_solver = Some ''0xB0B''\<rparr>"
             "''0xB0B''" "''0xb0b''"]
  have b: "RevealSolution \<notin> set (fst (bot_submit ''0xb0b'' lost_commit_env)) \<and>
           snd (bot_submit ''0xb0b'' lost_commit_env) = CommitFailedAfterRetries \<and>
           \<not> snd (solve_and_submit lost_commit_env) \<and>
           RevealSolution \<notin> set (fst (webhook_submit lost_commit_env)) \<and>
           snd (webhook_submit lost_commit_env) = ''commit_failed''"
    by (simp add: lost_commit_env_def lower_address)
  from a b show ?thesis by blast
qed

subsection \<open>What is checked before a reveal\<close>

text \<open>
  Claim C5, as stated, fails. The order read before the commit has status \<^verbatim>\<open>ACCEPTED\<close>
  and no time remaining; the bot writes a warning, commits, sleeps and reveals. No
  margin of time stops the reveal, and between the commit receipt and the reveal the
  order is not read, so its status is not checked either.
\<close>

theorem reveal_preconditions_counterexample:
  "fresh_order hurried_env =
     Inr \<lparr>sdk_status = ACCEPTED, time_remaining = 0, sdk_solver = Some ''0xB0B''\<rparr> \<and>
   bot_submit ''0xb0b'' hurried_env =
     ([GetOrder, AddLog ''[BOT] WARNING: Only 0s left!'' ''warning'', CommitSolution, Sleep 3,
       RevealSolution], Solved)"
  by (simp add: hurried_env_def bot_submit_def reveal_step_def lower_address str_int_0)

text \<open>
  Claim C5, amended. In \<^verbatim>\<open>bot_loop\<close> the checks stand before the commit: the order is
  read again, and when its recorded solver is not the bot's address (compared without
  case) the attempt ends with "someone else accepted", when it is already \<^verbatim>\<open>COMMITTED\<close>
  with "already committed", in both cases with neither commit nor reveal submitted. A
  remaining time below 30 seconds writes a warning and stops nothing. A reveal is
  submitted only if those two checks passed and the commit receipt reported success or
  a re-poll observed \<^verbatim>\<open>COMMITTED\<close>; with a successful receipt it always is.
\<close>

theorem reveal_guarded_before_commit:
  "(RevealSolution \<in> set (fst (bot_submit address env)) \<longrightarrow>
      (\<exists>fresh slv. fresh_order env = Inr fresh \<and> sdk_solver fresh = Some slv \<and>
           lower slv = lower address \<and> sdk_status fresh \<noteq> COMMITTED \<and>
           (commit_solution env = Inr True \<or>
            commit_solution env = Inr False \<and> observed_committed (check_order env) 5))) \<and>
   (fresh_order env = Inr fresh \<and> sdk_solver fresh = Some slv \<and> lower slv \<noteq> lower address \<longrightarrow>
      snd (bot_submit address env) = SomeoneElseAccepted \<and>
      CommitSolution \<notin> set (fst (bot_submit address env)) \<and>
      RevealSolution \<notin> set (fst (bot_submit address env))) \<and>
   (fresh_order env = Inr fresh \<and> sdk_solver fresh = Some slv \<and> lower slv = lower address \<and>
    sdk_status fresh = COMMITTED \<longrightarrow>
      snd (bot_submit address env) = AlreadyCommitted \<and>
      CommitSolution \<notin> set (fst (bot_submit address env)) \<and>
      RevealSolution \<notin> set (fst (bot_submit address env))) \<and>
   (fresh_order env = Inr fresh \<and> sdk_solver fresh = Some slv \<and> lower slv = lower address \<and>
    sdk_status fresh \<noteq> COMMITTED \<and> commit_solution env = Inr True \<longrightarrow>
      RevealSolution \<in> set (fst (bot_submit address env)) \<and>
      (time_remaining fresh < 30 \<longrightarrow>
         AddLog (''[BOT] WARNING: Only '' @ str_int (time_remaining fresh) @ ''s left!'')
           ''warning'' \<in> set (fst (bot_submit address env))))"
proof (intro conjI impI)
  assume "RevealSolution \<in> set (fst (bot_submit address env))"
  then show "\<exists>fresh slv. fresh_order env = Inr fresh \<and> sdk_solver fresh = Some slv \<and>
           lower slv = lower address \<and> sdk_status fresh \<noteq> COMMITTED \<and>
           (commit_solution env = Inr True \<or>
            commit_solution env = Inr False \<and> observed_committed (check_order env) 5)"
    by (rule bot_submit_reveal_needs)
next
  assume a: "fresh_order env = Inr fresh \<and> sdk_solver fresh = Some slv \<and> lower slv \<noteq> lower address"
  then show "snd (bot_submit address env) = SomeoneElseAccepted"
    "CommitSolution \<notin> set (fst (bot_submit address env))"
    "RevealSolution \<notin> set (fst (bot_submit address env))"
    by (simp_all add: bot_submit_def Let_def)
next
  assume a: "fresh_order env = Inr fresh \<and> sdk_solver fresh = Some slv \<and> lower slv = lower address \<and>
    sdk_status fresh = COMMITTED"
  then show "snd (bot_submit address env) = AlreadyCommitted"
    "CommitSolution \<notin> set (fst (bot_submit address env))"
    "RevealSolution \<notin> set (fst (bot_submit address env))"
    by (simp_all add: bot_submit_def Let_def)
next
  assume a: "fresh_order env = Inr fresh \<and> sdk_solver fresh = Some slv \<and> lower slv = lower address \<and>
    sdk_status fresh \<noteq> COMMITTED \<and> commit_solution env = Inr True"
  then show "RevealSolution \<in> set (fst (bot_submit address env))"
    using reveal_step_effects [of env] by (simp add: bot_submit_def Let_def split_beta)
  assume "time_remaining fresh < 30"
  with a show "AddLog (''[BOT] WARNING: Only '' @ str_int (time_remaining fresh) @ ''s left!'')
           ''warning'' \<in> set (fst (bot_submit address env))"
    by (simp add: bot_submit_def Let_def split_beta)
qed

theorem reveal_guarded_before_commit_witness:
  "snd (bot_submit ''0xb0b'' taken_env) = SomeoneElseAccepted \<and>
   CommitSolution \<notin> set (fst (bot_submit ''0xb0b'' taken_env)) \<and>
   RevealSolution \<notin> set (fst (bot_submit ''0xb0b'' taken_env)) \<and>
   RevealSolution \<in> set (fst (bot_submit ''0xb0b'' hurried_env)) \<and>
   AddLog (''[BOT] WARNING: Only '' @ str_int 0 @ ''s left!'') ''warning''
     \<in> set (fst (bot_submit ''0xb0b'' hurried_env))"
  using reveal_guarded_before_commit
          [of "''0xb0b''" taken_env
              "\<lparr>sdk_status = ACCEPTED, time_remaining = 200, sdk_solver = Some ''0xE7E''\<rparr>"
              "''0xE7E''"]
        reveal_guarded_before_commit
          [of "''0xb0b''" hurried_env
              "\<lparr>sdk_status = ACCEPTED, time_remaining = 0, sdk_solver = Some ''0xB0B''\<rparr>"
              "''0xB0B''"]
        lower_other lower_address
  by (simp add: taken_env_def hurried_env_def)

end
